theory Spec2Isabelle
  imports Complex_Main "HOL-Library.Char_ord" "HOL-Library.List_Lexorder"
begin

section \<open>Library management backend: tables, time and text\<close>

text \<open>
  The program keeps two SQLite tables, \<open>books\<close> and \<open>borrows\<close> (db.js, initDB).
  A row is a record; a table is the list of its rows in insertion order. Every
  function of db.js takes the database and returns the new one: the statements run
  synchronously, one after the other. Ids are integers: an id that arrives as text
  (a URL parameter) is compared as the integer it denotes, and text that denotes none
  matches no row, as an integer that no row has.
\<close>

subsection \<open>Rows and the database\<close>

text \<open>
  \<open>books(id INTEGER PRIMARY KEY AUTOINCREMENT, title, author, isbn UNIQUE,
  available BOOLEAN DEFAULT TRUE)\<close>. The column \<open>id\<close> is the field \<open>id_bk\<close>
  (\<open>id\<close> is the identity function of HOL).
\<close>

record book =
  id_bk :: int
  title :: string
  author :: string
  isbn :: string
  available :: bool

text \<open>
  \<open>borrows(id, book_id REFERENCES books (id), user_email, borrow_date, return_date,
  returned BOOLEAN DEFAULT FALSE)\<close>. The two date columns hold the text that
  \<open>Date.toISOString\<close> produced in addBorrow; the row keeps the instant (milliseconds
  since the epoch) that this text denotes, and the text is recomputed by
  \<open>toISOString\<close> below wherever SQL compares it. \<open>new Date(row.return_date)\<close> reads
  the instant back.
\<close>

record borrow =
  id_br :: int
  book_id :: int
  user_email :: string
  borrow_date :: int
  return_date :: int
  returned :: bool

text \<open>
  The database: the two tables and the AUTOINCREMENT counters of SQLite (the largest
  rowid ever handed out in each table). The connection is opened by better-sqlite3,
  which turns the enforcement of foreign keys on, and the source never turns it off:
  the declared \<open>FOREIGN KEY (book_id) REFERENCES books (id)\<close> is enforced.
\<close>

record db =
  books :: "book list"
  borrows :: "borrow list"
  book_seq :: int
  borrow_seq :: int

text \<open>What \<open>stmt.run\<close> returns.\<close>

record run_info =
  changes :: nat
  lastInsertRowid :: int

text \<open>
  A thrown JavaScript error. The routes dispatch on \<open>error.message\<close>, so each error
  has its message. \<open>SmtpError\<close> is a rejected \<open>transporter.sendMail\<close>; its message is
  the transport's own. \<open>TooFewParameters\<close> and \<open>TooManyParameters\<close> are the RangeError
  of a statement that is run with fewer or more values than it has placeholders.
\<close>

datatype error =
    BookNotFound
  | BookNotAvailable
  | BorrowNotFound
  | UniqueConstraint
  | ForeignKeyConstraint
  | SqlSyntaxError
  | TooFewParameters
  | TooManyParameters
  | SmtpError

fun message :: "error \<Rightarrow> string" where
  "message BookNotFound = ''Book not found''"
| "message BookNotAvailable = ''Book is not available''"
| "message BorrowNotFound = ''Borrow record not found''"
| "message UniqueConstraint = ''UNIQUE constraint failed: books.isbn''"
| "message ForeignKeyConstraint = ''FOREIGN KEY constraint failed''"
| "message SqlSyntaxError = ''near \"WHERE\": syntax error''"
| "message TooFewParameters = ''Too few parameter values were provided''"
| "message TooManyParameters = ''Too many parameter values were provided''"
| "message SmtpError = ''Message failed''"

definition initDB :: db where
  "initDB = \<lparr>books = [], borrows = [], book_seq = 0, borrow_seq = 0\<rparr>"

text \<open>
  AUTOINCREMENT: the new rowid is one more than the largest rowid that the table holds
  or has ever held.
\<close>

definition next_rowid :: "int \<Rightarrow> int list \<Rightarrow> int" where
  "next_rowid sq ids = fold max ids sq + 1"

subsection \<open>Instants and their text\<close>

definition msPerDay :: int where
  "msPerDay = 86400000"

text \<open>
  The proleptic Gregorian date (year, month, day) of a day number counted from
  1970-01-01, as ECMAScript's YearFromTime, MonthFromTime and DateFromTime give it.
\<close>

definition civil_from_days :: "int \<Rightarrow> int \<times> int \<times> int" where
  "civil_from_days z0 =
     (let z = z0 + 719468;
          era = z div 146097;
          doe = z mod 146097;
          yoe = (doe - doe div 1460 + doe div 36524 - doe div 146096) div 365;
          doy = doe - (365 * yoe + yoe div 4 - yoe div 100);
          mp = (5 * doy + 2) div 153;
          d = doy - (153 * mp + 2) div 5 + 1;
          m = (if mp < 10 then mp + 3 else mp - 9);
          y = yoe + era * 400 + (if m \<le> 2 then 1 else 0)
      in (y, m, d))"

definition digit :: "int \<Rightarrow> char" where
  "digit n = ''0123456789'' ! nat (n mod 10)"

definition pad2 :: "int \<Rightarrow> string" where
  "pad2 n = [digit (n div 10), digit n]"

definition pad3 :: "int \<Rightarrow> string" where
  "pad3 n = [digit (n div 100), digit (n div 10), digit n]"

definition pad4 :: "int \<Rightarrow> string" where
  "pad4 n = [digit (n div 1000), digit (n div 100), digit (n div 10), digit n]"

text \<open>
  The ten characters \<open>YYYY-MM-DD\<close> of an instant, in UTC. This is what SQLite's
  \<open>date('now')\<close> evaluates to, and the first ten characters of \<open>toISOString\<close>.
  Years are taken between 0000 and 9999, where both use four digits.
\<close>

definition sql_date :: "int \<Rightarrow> string" where
  "sql_date t =
     (case civil_from_days (t div msPerDay) of
        (y, m, d) \<Rightarrow> pad4 y @ ''-'' @ pad2 m @ ''-'' @ pad2 d)"

definition iso_time :: "int \<Rightarrow> string" where
  "iso_time t =
     (let w = t mod msPerDay
      in ''T'' @ pad2 (w div 3600000) @ '':'' @ pad2 (w div 60000 mod 60) @ '':''
         @ pad2 (w div 1000 mod 60) @ ''.'' @ pad3 (w mod 1000) @ ''Z'')"

definition toISOString :: "int \<Rightarrow> string" where
  "toISOString t = sql_date t @ iso_time t"

text \<open>
  The instants from 1970-01-01T00:00:00.000Z to 9999-12-31T23:59:59.999Z: those a
  clock of today reads, with a year of four digits.
\<close>

definition in_calendar :: "int \<Rightarrow> bool" where
  "in_calendar t = (0 \<le> t \<and> t < 253402300800000)"

text \<open>
  The time zone of the server: \<open>z t True\<close> is the offset of local time from UTC, in
  milliseconds, at the instant \<open>t\<close>, and \<open>z t False\<close> the offset that is in force at
  the local time \<open>t\<close> (LocalTZA of ECMAScript, with its \<open>isUTC\<close> flag). The two differ
  around a change between standard and daylight-saving time.
\<close>

type_synonym zone = "int \<Rightarrow> bool \<Rightarrow> int"

definition LocalTime :: "zone \<Rightarrow> int \<Rightarrow> int" where
  "LocalTime z t = t + z t True"

definition UTC :: "zone \<Rightarrow> int \<Rightarrow> int" where
  "UTC z t = t - z t False"

text \<open>
  \<open>returnDate.setDate(returnDate.getDate() + 14)\<close>: the date of the local time is
  moved fourteen days on, the local time within the day is kept, and the result is
  taken back to UTC. (\<open>MakeDay\<close> with a day of the month beyond the end of the month
  counts on into the next months, so the new local time is the old one plus fourteen
  times 24 hours.)
\<close>

definition plus14days :: "zone \<Rightarrow> int \<Rightarrow> int" where
  "plus14days z t = UTC z (LocalTime z t + 14 * msPerDay)"

text \<open>A server whose local time is UTC.\<close>

definition utc_zone :: zone where
  "utc_zone t u = 0"

text \<open>
  Central European time in the spring of 2024: one hour ahead of UTC until
  2024-03-31T01:00:00.000Z (02:00 local time), two hours from then on.
\<close>

definition cet_zone :: zone where
  "cet_zone t u =
     (if u then (if t < 1711846800000 then 3600000 else 7200000)
      else (if t < 1711854000000 then 3600000 else 7200000))"


section \<open>db.js\<close>

subsection \<open>Book management\<close>

text \<open>
  \<open>INSERT INTO books (title, author, isbn) VALUES (?, ?, ?)\<close>. The UNIQUE column
  rejects an isbn that a row already has; \<open>available\<close> takes its default.
\<close>

definition addBook :: "db \<Rightarrow> string \<Rightarrow> string \<Rightarrow> string \<Rightarrow> error + (db \<times> run_info)" where
  "addBook s t a i =
     (if i \<in> set (map isbn (books s)) then Inl UniqueConstraint
      else
        let n = next_rowid (book_seq s) (map id_bk (books s))
        in Inr (s\<lparr>books := books s @ [\<lparr>id_bk = n, title = t, author = a, isbn = i, available = True\<rparr>],
                  book_seq := n\<rparr>,
                \<lparr>changes = 1, lastInsertRowid = n\<rparr>))"

definition getAllBooks :: "db \<Rightarrow> book list" where
  "getAllBooks s = books s"

definition getBookById :: "db \<Rightarrow> int \<Rightarrow> book option" where
  "getBookById s i = find (\<lambda>b. id_bk b = i) (books s)"

text \<open>
  A JavaScript value used as a condition: a field that is absent (\<open>undefined\<close>) or the
  empty string is falsy.
\<close>

fun truthy :: "string option \<Rightarrow> bool" where
  "truthy None = False"
| "truthy (Some v) = (v \<noteq> [])"

text \<open>The value of a column after the UPDATE: a truthy field replaces it.\<close>

fun set_field :: "string option \<Rightarrow> string \<Rightarrow> string" where
  "set_field None old = old"
| "set_field (Some v) old = (if v = [] then old else v)"

text \<open>
  updateBook: the SET list holds the truthy fields only. With none, the statement text
  is \<open>UPDATE books SET  WHERE id = ?\<close>, which \<open>db.prepare\<close> rejects. The UNIQUE column
  rejects an isbn that another row has.
\<close>

definition updateBook ::
  "db \<Rightarrow> int \<Rightarrow> string option \<Rightarrow> string option \<Rightarrow> string option \<Rightarrow> error + (db \<times> book option)" where
  "updateBook s i t a n =
     (case getBookById s i of
        None \<Rightarrow> Inr (s, None)
      | Some bk \<Rightarrow>
          if \<not> truthy t \<and> \<not> truthy a \<and> \<not> truthy n then Inl SqlSyntaxError
          else if truthy n \<and> (\<exists>b \<in> set (books s). id_bk b \<noteq> i \<and> Some (isbn b) = n)
            then Inl UniqueConstraint
          else
            let s' = s\<lparr>books := map (\<lambda>b. if id_bk b = i
                                          then b\<lparr>title := set_field t (title b),
                                                 author := set_field a (author b),
                                                 isbn := set_field n (isbn b)\<rparr>
                                          else b) (books s)\<rparr>
            in Inr (s', getBookById s' i))"

text \<open>
  \<open>DELETE FROM books WHERE id = ?\<close>. The foreign key of \<open>borrows\<close> is enforced: a book
  that a borrow row references, returned or not, cannot be deleted, and the statement
  throws.
\<close>

definition deleteBook :: "db \<Rightarrow> int \<Rightarrow> error + (db \<times> bool)" where
  "deleteBook s i =
     (if i \<in> set (map id_bk (books s)) \<and> i \<in> set (map book_id (borrows s))
      then Inl ForeignKeyConstraint
      else Inr (s\<lparr>books := filter (\<lambda>b. id_bk b \<noteq> i) (books s)\<rparr>,
                i \<in> set (map id_bk (books s))))"

subsection \<open>Borrow management\<close>

text \<open>
  The \<open>userEmail\<close> of a request is a JSON value that nothing in the program forces to
  be a string: the route tests it for truthiness and against a regular expression,
  which converts it to a string first. The values kept here are the strings and the
  arrays of strings; an array is truthy, and its string is its elements joined by
  commas. (A number, a boolean or an object fails the regular expression; an array
  with other elements that passes it makes the INSERT throw, as an array of two
  strings does.)
\<close>

datatype email_value = EmailText string | EmailArray "string list"

fun email_truthy :: "email_value \<Rightarrow> bool" where
  "email_truthy (EmailText v) = (v \<noteq> [])"
| "email_truthy (EmailArray vs) = True"

fun join_comma :: "string list \<Rightarrow> string" where
  "join_comma [] = []"
| "join_comma [v] = v"
| "join_comma (v # w # vs) = v @ '','' @ join_comma (w # vs)"

fun email_string :: "email_value \<Rightarrow> string" where
  "email_string (EmailText v) = v"
| "email_string (EmailArray vs) = join_comma vs"

text \<open>
  The value bound to the second placeholder of the INSERT by
  \<open>stmt.run(bookId, userEmail, ...)\<close>. better-sqlite3 binds a string as it is, and
  takes an array argument as a list of positional values, one for each element: an
  array of one string binds that string, and with any other array the four
  placeholders get three values, or five and more, and \<open>run\<close> throws.
\<close>

fun bind_email :: "email_value \<Rightarrow> error + string" where
  "bind_email (EmailText v) = Inr v"
| "bind_email (EmailArray []) = Inl TooFewParameters"
| "bind_email (EmailArray [v]) = Inr v"
| "bind_email (EmailArray (v # w # vs)) = Inl TooManyParameters"

text \<open>
  addBorrow reads the clock twice (\<open>new Date()\<close> for borrowDate, \<open>new Date()\<close> for
  returnDate): \<open>t1\<close> and \<open>t2\<close> are the two readings. The UPDATE of the book and the
  INSERT of the loan are two statements, each committed on its own (there is no
  transaction): when the INSERT throws, the UPDATE stays. So the result is the
  database that the call leaves, together with the error thrown or the value
  returned.
\<close>

definition addBorrow ::
  "zone \<Rightarrow> db \<Rightarrow> int \<Rightarrow> email_value \<Rightarrow> int \<Rightarrow> int \<Rightarrow> db \<times> (error + run_info)" where
  "addBorrow z s bookId userEmail t1 t2 =
     (case getBookById s bookId of
        None \<Rightarrow> (s, Inl BookNotFound)
      | Some bk \<Rightarrow>
          if \<not> available bk then (s, Inl BookNotAvailable)
          else
            let borrowDate = t1;
                returnDate = plus14days z t2;
                bs = map (\<lambda>b. if id_bk b = bookId then b\<lparr>available := False\<rparr> else b) (books s);
                n = next_rowid (borrow_seq s) (map id_br (borrows s))
            in (case bind_email userEmail of
                  Inl e \<Rightarrow> (s\<lparr>books := bs\<rparr>, Inl e)
                | Inr v \<Rightarrow>
                    (s\<lparr>books := bs,
                       borrows := borrows s @ [\<lparr>id_br = n, book_id = bookId, user_email = v,
                                               borrow_date = borrowDate, return_date = returnDate,
                                               returned = False\<rparr>],
                       borrow_seq := n\<rparr>,
                     Inr \<lparr>changes = 1, lastInsertRowid = n\<rparr>)))"

text \<open>
  A row of the two notification queries: \<open>SELECT b.*, books.title, books.author FROM
  borrows b JOIN books ON b.book_id = books.id\<close>.
\<close>

record joined =
  loan :: borrow
  book_title :: string
  book_author :: string

definition join_books :: "db \<Rightarrow> (borrow \<Rightarrow> bool) \<Rightarrow> joined list" where
  "join_books s p =
     concat (map (\<lambda>b. map (\<lambda>bk. \<lparr>loan = b, book_title = title bk, book_author = author bk\<rparr>)
                         (filter (\<lambda>bk. book_id b = id_bk bk) (books s)))
                 (filter p (borrows s)))"

text \<open>
  \<open>WHERE b.returned = FALSE AND b.return_date >= date('now')\<close>: the comparison is the
  one of SQLite on two texts, byte by byte, a proper prefix being smaller.
\<close>

definition getPendingReturns :: "db \<Rightarrow> int \<Rightarrow> joined list" where
  "getPendingReturns s now =
     join_books s (\<lambda>b. \<not> returned b \<and> \<not> toISOString (return_date b) < sql_date now)"

definition getOverdueBooks :: "db \<Rightarrow> int \<Rightarrow> joined list" where
  "getOverdueBooks s now =
     join_books s (\<lambda>b. \<not> returned b \<and> toISOString (return_date b) < sql_date now)"

definition markAsReturned :: "db \<Rightarrow> int \<Rightarrow> error + (db \<times> bool)" where
  "markAsReturned s borrowId =
     (case find (\<lambda>l. id_br l = borrowId) (borrows s) of
        None \<Rightarrow> Inl BorrowNotFound
      | Some br \<Rightarrow>
          let bs = map (\<lambda>b. if id_bk b = book_id br then b\<lparr>available := True\<rparr> else b) (books s);
              ls = map (\<lambda>l. if id_br l = borrowId then l\<lparr>returned := True\<rparr> else l) (borrows s)
          in Inr (s\<lparr>books := bs, borrows := ls\<rparr>,
                  0 < length (filter (\<lambda>l. id_br l = borrowId) (borrows s))))"

section \<open>emailService.js\<close>

text \<open>
  A message handed to \<open>transporter.sendMail\<close>. The sender address comes from the
  environment and is the same in every message. The transport is a parameter of every
  function that sends: \<open>tr m\<close> holds when \<open>sendMail\<close> resolves for the message \<open>m\<close>,
  and fails when it rejects.
\<close>

record mail =
  mail_to :: string
  subject :: string
  mail_text :: string

definition sendBorrowEmail :: "string \<Rightarrow> string \<Rightarrow> string \<Rightarrow> mail" where
  "sendBorrowEmail userEmail bookTitle returnDate =
     \<lparr>mail_to = userEmail, subject = ''Library Book Borrowed'',
      mail_text = ''You have borrowed \"'' @ bookTitle @ ''\". Please return it by '' @ returnDate
                  @ ''. The book is due in 14 days.''\<rparr>"


definition sendOverdueEmail :: "string \<Rightarrow> string \<Rightarrow> string \<Rightarrow> mail" where
  "sendOverdueEmail userEmail bookTitle returnDate =
     \<lparr>mail_to = userEmail, subject = ''Library Book Overdue Notice'',
      mail_text = ''OVERDUE NOTICE: Your borrowed book \"'' @ bookTitle @ ''\" was due on ''
                  @ returnDate @ ''. Please return it immediately to avoid additional late fees.''\<rparr>"




definition overdue_of :: "joined \<Rightarrow> mail" where
  "overdue_of r =
     sendOverdueEmail (user_email (loan r)) (book_title r) (toISOString (return_date (loan r)))"



fun overdue_loop :: "(mail \<Rightarrow> bool) \<Rightarrow> joined list \<Rightarrow> joined list" where
  "overdue_loop tr [] = []"
| "overdue_loop tr (r # rs) = (if tr (overdue_of r) then r # overdue_loop tr rs else [r])"

definition overdueCron :: "(mail \<Rightarrow> bool) \<Rightarrow> db \<Rightarrow> int \<Rightarrow> joined list" where
  "overdueCron tr s tq = overdue_loop tr (getOverdueBooks s tq)"

section \<open>The routes\<close>

datatype body =
    ErrorBody string
  | MessageBody string
  | BorrowBody string run_info string
  | BookBody string book

record response =
  status :: nat
  body :: body

text \<open>
  \<open>/^[^\s@]+@[^\s@]+\.[^\s@]+$/\<close>: a run of characters that are neither white space
  nor \<open>@\<close>, then \<open>@\<close>, then such a run with a dot that is neither its first nor its
  last character. Strings are the UTF-8 bytes of the text. The white space of \<open>\s\<close>
  is the six characters of ASCII and the characters U+00A0, U+1680, U+2000 to U+200A,
  U+2028, U+2029, U+202F, U+205F, U+3000 and U+FEFF, each recognised by its bytes; no
  other character has any of these byte sequences inside its own, and no byte of a
  character beyond ASCII is the byte of \<open>@\<close>, of the dot or of an ASCII space.
\<close>

definition is_space :: "char \<Rightarrow> bool" where
  "is_space c = (c \<in> set [CHR 0x20, CHR 0x09, CHR 0x0A, CHR 0x0B, CHR 0x0C, CHR 0x0D])"

definition unicode_spaces :: "string list" where
  "unicode_spaces =
     [[CHR 0xC2, CHR 0xA0], [CHR 0xE1, CHR 0x9A, CHR 0x80],
      [CHR 0xE2, CHR 0x80, CHR 0x80], [CHR 0xE2, CHR 0x80, CHR 0x81],
      [CHR 0xE2, CHR 0x80, CHR 0x82], [CHR 0xE2, CHR 0x80, CHR 0x83],
      [CHR 0xE2, CHR 0x80, CHR 0x84], [CHR 0xE2, CHR 0x80, CHR 0x85],
      [CHR 0xE2, CHR 0x80, CHR 0x86], [CHR 0xE2, CHR 0x80, CHR 0x87],
      [CHR 0xE2, CHR 0x80, CHR 0x88], [CHR 0xE2, CHR 0x80, CHR 0x89],
      [CHR 0xE2, CHR 0x80, CHR 0x8A], [CHR 0xE2, CHR 0x80, CHR 0xA8],
      [CHR 0xE2, CHR 0x80, CHR 0xA9], [CHR 0xE2, CHR 0x80, CHR 0xAF],
      [CHR 0xE2, CHR 0x81, CHR 0x9F], [CHR 0xE3, CHR 0x80, CHR 0x80],
      [CHR 0xEF, CHR 0xBB, CHR 0xBF]]"

text \<open>The byte sequence \<open>w\<close> occurs in \<open>e\<close>.\<close>

fun contains :: "string \<Rightarrow> string \<Rightarrow> bool" where
  "contains w [] = (w = [])"
| "contains w (c # e) = (take (length w) (c # e) = w \<or> contains w e)"

definition has_unicode_space :: "string \<Rightarrow> bool" where
  "has_unicode_space e = list_ex (\<lambda>w. contains w e) unicode_spaces"

definition email_ok :: "string \<Rightarrow> bool" where
  "email_ok e =
     (let cls = (\<lambda>c. c \<noteq> CHR ''@'' \<and> \<not> is_space c)
      in \<not> has_unicode_space e \<and> takeWhile cls e \<noteq> [] \<and>
         (case dropWhile cls e of
            [] \<Rightarrow> False
          | c # d \<Rightarrow> c = CHR ''@'' \<and> list_all cls d \<and> CHR ''.'' \<in> set (butlast (tl d))))"

text \<open>The \<open>catch\<close> of POST /borrow.\<close>

definition borrow_catch :: "error \<Rightarrow> response" where
  "borrow_catch e =
     (if message e = ''Book is not available'' then \<lparr>status = 400, body = ErrorBody (message e)\<rparr>
      else \<lparr>status = 500, body = ErrorBody (message e)\<rparr>)"

text \<open>
  POST /borrow. The body's \<open>bookId\<close> and \<open>userEmail\<close> may be absent; \<open>0\<close> and the empty
  string are falsy. \<open>t1\<close>, \<open>t2\<close> are the clock readings of addBorrow, \<open>t3\<close> the one of
  the route. The result is the database that the request leaves, the messages handed
  to the transport, and the response. The recipient of the message is written as the
  string of \<open>userEmail\<close> (for an array, the list of its addresses).
\<close>

definition postBorrow ::
  "zone \<Rightarrow> (mail \<Rightarrow> bool) \<Rightarrow> db \<Rightarrow> int option \<Rightarrow> email_value option \<Rightarrow> int \<Rightarrow> int \<Rightarrow> int
     \<Rightarrow> db \<times> mail list \<times> response" where
  "postBorrow z tr s bookId userEmail t1 t2 t3 =
     (case (bookId, userEmail) of
        (Some bi, Some ue) \<Rightarrow>
          if bi = 0 \<or> \<not> email_truthy ue then
            (s, [], \<lparr>status = 400, body = ErrorBody ''Book ID and user email are required''\<rparr>)
          else if \<not> email_ok (email_string ue) then
            (s, [], \<lparr>status = 400, body = ErrorBody ''Invalid email format''\<rparr>)
          else
            (case getBookById s bi of
               None \<Rightarrow> (s, [], \<lparr>status = 404, body = ErrorBody ''Book not found''\<rparr>)
             | Some bk \<Rightarrow>
                 (case addBorrow z s bi ue t1 t2 of
                    (s', Inl e) \<Rightarrow> (s', [], borrow_catch e)
                  | (s', Inr info) \<Rightarrow>
                      let returnDate = plus14days z t3;
                          m = sendBorrowEmail (email_string ue) (title bk) (toISOString returnDate)
                      in if tr m
                         then (s', [m], \<lparr>status = 200,
                                          body = BorrowBody ''Book borrowed successfully'' info
                                                   (toISOString returnDate)\<rparr>)
                         else (s', [m], borrow_catch SmtpError)))
      | _ \<Rightarrow> (s, [], \<lparr>status = 400, body = ErrorBody ''Book ID and user email are required''\<rparr>))"

text \<open>POST /return/:borrowId.\<close>

definition postReturn :: "db \<Rightarrow> int \<Rightarrow> db \<times> response" where
  "postReturn s borrowId =
     (case markAsReturned s borrowId of
        Inl e \<Rightarrow>
          if message e = ''Borrow record not found''
          then (s, \<lparr>status = 404, body = ErrorBody (message e)\<rparr>)
          else (s, \<lparr>status = 500, body = ErrorBody (message e)\<rparr>)
      | Inr (s', result) \<Rightarrow>
          if \<not> result then (s', \<lparr>status = 404, body = ErrorBody ''Borrow record not found''\<rparr>)
          else (s', \<lparr>status = 200, body = MessageBody ''Book returned successfully''\<rparr>))"

text \<open>PUT /books/:id.\<close>

definition putBook ::
  "db \<Rightarrow> int \<Rightarrow> string option \<Rightarrow> string option \<Rightarrow> string option \<Rightarrow> db \<times> response" where
  "putBook s bookId t a n =
     (if \<not> truthy t \<and> \<not> truthy a \<and> \<not> truthy n then
        (s, \<lparr>status = 400, body = ErrorBody ''At least one field to update is required''\<rparr>)
      else
        (case updateBook s bookId t a n of
           Inl e \<Rightarrow> (s, \<lparr>status = 500, body = ErrorBody (message e)\<rparr>)
         | Inr (s', None) \<Rightarrow> (s', \<lparr>status = 404, body = ErrorBody ''Book not found''\<rparr>)
         | Inr (s', Some bk) \<Rightarrow>
             (s', \<lparr>status = 200, body = BookBody ''Book updated successfully'' bk\<rparr>)))"

text \<open>DELETE /books/:id.\<close>

definition deleteRoute :: "db \<Rightarrow> int \<Rightarrow> db \<times> response" where
  "deleteRoute s bookId =
     (case deleteBook s bookId of
        Inl e \<Rightarrow> (s, \<lparr>status = 500, body = ErrorBody (message e)\<rparr>)
      | Inr (s', result) \<Rightarrow>
          if \<not> result then (s', \<lparr>status = 404, body = ErrorBody ''Book not found''\<rparr>)
          else (s', \<lparr>status = 200, body = MessageBody ''Book deleted successfully''\<rparr>))"

subsection \<open>The parts of the calendar computation\<close>

text \<open>
  Names for the intermediate values of \<open>civil_from_days\<close>: the 400-year era of a day
  and the day within it, the year within the era (counted from March) and its first
  day, the day within that year, the month counted from March, and the day of the
  month.
\<close>

definition era_days :: "int \<Rightarrow> int" where
  "era_days doe = doe - doe div 1460 + doe div 36524 - doe div 146096"

definition yoe_of :: "int \<Rightarrow> int" where
  "yoe_of doe = era_days doe div 365"

definition year_start :: "int \<Rightarrow> int" where
  "year_start y = 365 * y + y div 4 - y div 100"

definition era_of :: "int \<Rightarrow> int" where
  "era_of z = (z + 719468) div 146097"

definition doe_of :: "int \<Rightarrow> int" where
  "doe_of z = (z + 719468) mod 146097"

definition doy_of :: "int \<Rightarrow> int" where
  "doy_of z = doe_of z - year_start (yoe_of (doe_of z))"

definition mp_of :: "int \<Rightarrow> int" where
  "mp_of z = (5 * doy_of z + 2) div 153"

definition dom_of :: "int \<Rightarrow> int" where
  "dom_of z = doy_of z - (153 * mp_of z + 2) div 5 + 1"

definition march_year :: "int \<Rightarrow> int" where
  "march_year z = yoe_of (doe_of z) + era_of z * 400"

section \<open>Sequences of operations\<close>

text \<open>
  A call of one of the five mutating functions of db.js, with its arguments (for
  addBorrow also the two clock readings), and the database that the call leaves,
  whether it returns or throws. addBook, updateBook, deleteBook and markAsReturned
  throw before their first write or in their only statement, and then leave the
  database as it was; addBorrow leaves what it has written when it throws. The zone
  of the server is the same for all calls.
\<close>

datatype op =
    AddBook string string string
  | UpdateBook int "string option" "string option" "string option"
  | DeleteBook int
  | AddBorrow int email_value int int
  | MarkAsReturned int

definition after :: "db \<Rightarrow> error + (db \<times> 'a) \<Rightarrow> db" where
  "after s r = (case r of Inl e \<Rightarrow> s | Inr (s', v) \<Rightarrow> s')"

fun apply_op :: "zone \<Rightarrow> db \<Rightarrow> op \<Rightarrow> db" where
  "apply_op z s (AddBook t a i) = after s (addBook s t a i)"
| "apply_op z s (UpdateBook i t a n) = after s (updateBook s i t a n)"
| "apply_op z s (DeleteBook i) = after s (deleteBook s i)"
| "apply_op z s (AddBorrow i ue t1 t2) = fst (addBorrow z s i ue t1 t2)"
| "apply_op z s (MarkAsReturned i) = after s (markAsReturned s i)"

fun exec :: "zone \<Rightarrow> db \<Rightarrow> op list \<Rightarrow> db" where
  "exec z s [] = s"
| "exec z s (c # cs) = exec z (apply_op z s c) cs"

inductive reachable :: "zone \<Rightarrow> db \<Rightarrow> bool" for z :: zone where
  init: "reachable z initDB"
| step: "reachable z s \<Longrightarrow> reachable z (apply_op z s c)"






text \<open>The states reached by calls that all satisfy \<open>ok\<close>, and such sequences of calls.\<close>

inductive reachable_by :: "(db \<Rightarrow> op \<Rightarrow> bool) \<Rightarrow> zone \<Rightarrow> db \<Rightarrow> bool"
  for ok :: "db \<Rightarrow> op \<Rightarrow> bool" and z :: zone where
  init_by: "reachable_by ok z initDB"
| step_by: "reachable_by ok z s \<Longrightarrow> ok s c \<Longrightarrow> reachable_by ok z (apply_op z s c)"


subsection \<open>Properties of a database state\<close>

text \<open>The schema: \<open>id\<close> is the primary key of each table.\<close>

definition primary_keys :: "db \<Rightarrow> bool" where
  "primary_keys s = (distinct (map id_bk (books s)) \<and> distinct (map id_br (borrows s)))"







text \<open>The foreign key: every borrow row references a book row.\<close>

definition loans_have_books :: "db \<Rightarrow> bool" where
  "loans_have_books s = (\<forall>l \<in> set (borrows s). book_id l \<in> set (map id_bk (books s)))"

subsection \<open>Example states\<close>

text \<open>
  The scenario of the specification: a book is created and borrowed on
  2024-01-15T08:00:00.000Z (due 2024-01-29T08:00:00.000Z), then returned.
\<close>

definition state_fresh :: db where
  "state_fresh = exec utc_zone initDB [AddBook ''A'' ''B'' ''978-0-13-468599-1'']"

definition state_borrowed :: db where
  "state_borrowed = exec utc_zone initDB
     [AddBook ''A'' ''B'' ''978-0-13-468599-1'',
      AddBorrow 1 (EmailText ''x@y.com'') 1705305600000 1705305600000]"

definition state_returned :: db where
  "state_returned = exec utc_zone initDB
     [AddBook ''A'' ''B'' ''978-0-13-468599-1'',
      AddBorrow 1 (EmailText ''x@y.com'') 1705305600000 1705305600000,
      MarkAsReturned 1]"




text \<open>Two books in the catalog.\<close>

definition state_two_books :: db where
  "state_two_books = exec utc_zone initDB
     [AddBook ''A'' ''B'' ''978-0-13-468599-1'',
      AddBook ''C'' ''D'' ''978-0-13-468599-2'']"

section \<open>Auxiliary facts\<close>

lemma state_fresh_eq: "state_fresh =
  \<lparr>books = [\<lparr>id_bk = 1, title = ''A'', author = ''B'', isbn = ''978-0-13-468599-1'',
              available = True\<rparr>],
   borrows = [], book_seq = 1, borrow_seq = 0\<rparr>"
  by code_simp

lemma state_borrowed_eq: "state_borrowed =
  \<lparr>books = [\<lparr>id_bk = 1, title = ''A'', author = ''B'', isbn = ''978-0-13-468599-1'',
              available = False\<rparr>],
   borrows = [\<lparr>id_br = 1, book_id = 1, user_email = ''x@y.com'', borrow_date = 1705305600000,
               return_date = 1706515200000, returned = False\<rparr>],
   book_seq = 1, borrow_seq = 1\<rparr>"
  by code_simp

lemma state_returned_eq: "state_returned =
  \<lparr>books = [\<lparr>id_bk = 1, title = ''A'', author = ''B'', isbn = ''978-0-13-468599-1'',
              available = True\<rparr>],
   borrows = [\<lparr>id_br = 1, book_id = 1, user_email = ''x@y.com'', borrow_date = 1705305600000,
               return_date = 1706515200000, returned = True\<rparr>],
   book_seq = 1, borrow_seq = 1\<rparr>"
  by code_simp




lemma state_two_books_eq: "state_two_books =
  \<lparr>books = [\<lparr>id_bk = 1, title = ''A'', author = ''B'', isbn = ''978-0-13-468599-1'',
              available = True\<rparr>,
            \<lparr>id_bk = 2, title = ''C'', author = ''D'', isbn = ''978-0-13-468599-2'',
              available = True\<rparr>],
   borrows = [], book_seq = 2, borrow_seq = 0\<rparr>"
  by code_simp

lemma toISOString_examples:
  "toISOString 0 = ''1970-01-01T00:00:00.000Z''"
  "toISOString 951825599999 = ''2000-02-29T11:59:59.999Z''"
  "toISOString 1706515200000 = ''2024-01-29T08:00:00.000Z''"
  "toISOString 253402300799999 = ''9999-12-31T23:59:59.999Z''"
  "sql_date 1709283600000 = ''2024-03-01''"
  by code_simp+

lemma find_primary_key:
  "distinct (map f xs) \<Longrightarrow> x \<in> set xs \<Longrightarrow> find (\<lambda>y. f y = f x) xs = Some x"
  by (induction xs) (auto simp: image_iff)

lemma find_None_key: "(find (\<lambda>y. f y = i) xs = None) = (i \<notin> set (map f xs))"
  by (induction xs) auto

lemma find_Some_key: "find (\<lambda>y. f y = i) xs = Some x \<Longrightarrow> x \<in> set xs \<and> f x = i"
  by (induction xs) (auto split: if_splits)

lemma find_map_key:
  "(\<And>b. id_bk (f b) = id_bk b) \<Longrightarrow>
   find (\<lambda>b. id_bk b = i) (map f bs) = map_option f (find (\<lambda>b. id_bk b = i) bs)"
  by (induction bs) auto

lemma key_unique:
  "distinct (map f xs) \<Longrightarrow> x \<in> set xs \<Longrightarrow> y \<in> set xs \<Longrightarrow> f x = f y \<Longrightarrow> x = y"
  by (induction xs) (auto simp: image_iff)

lemma map_returned_same:
  "\<forall>l \<in> set xs. id_br l = i \<longrightarrow> returned l \<Longrightarrow>
   map (\<lambda>l. if id_br l = i then l\<lparr>returned := True\<rparr> else l) xs = xs"
  by (induction xs) auto

lemma email_ok_nonempty: "email_ok ue \<Longrightarrow> ue \<noteq> []"
  by (auto simp: email_ok_def)

lemma email_ok_truthy: "email_ok (email_string ue) \<Longrightarrow> email_truthy ue"
  using email_ok_nonempty [of "email_string ue"] by (cases ue) simp_all

lemma email_ok_examples:
  "email_ok ''x@y.com''"
  "email_ok ''z@y.com''"
  "email_ok (email_string (EmailArray [''x@y.com'', ''z'']))"
  "\<not> email_ok [CHR ''x'', CHR 0xC2, CHR 0xA0, CHR ''@'', CHR ''y'', CHR ''.'', CHR ''c'']"
  "\<not> email_ok ''x y@y.com''"
  by code_simp+

text \<open>
  Fourteen days on the wall clock are fourteen times 24 hours where the offset of the
  zone is the same at both ends. Across the change to daylight-saving time they are
  an hour less: from 2024-03-20T08:00:00.000Z the return date is
  2024-04-03T07:00:00.000Z.
\<close>

lemma plus14days_same_offset:
  "z (t + z t True + 14 * msPerDay) False = z t True \<Longrightarrow> plus14days z t = t + 14 * msPerDay"
  by (simp add: plus14days_def UTC_def LocalTime_def)

lemma plus14days_utc: "plus14days utc_zone t = t + 14 * msPerDay"
  by (simp add: plus14days_def UTC_def LocalTime_def utc_zone_def)

lemma plus14days_across_dst:
  "toISOString 1710921600000 = ''2024-03-20T08:00:00.000Z''"
  "toISOString (plus14days cet_zone 1710921600000) = ''2024-04-03T07:00:00.000Z''"
  "plus14days cet_zone 1710921600000 = 1710921600000 + 14 * msPerDay - 3600000"
  by code_simp+

subsection \<open>Keys in reachable states\<close>




lemmas row_if =
  if_distrib [of id_bk] if_distrib [of id_br] if_distrib [of book_id]
  if_distrib [of available] if_distrib [of returned]

text \<open>What addBorrow leaves: nothing new, the UPDATE alone, or the UPDATE and the INSERT.\<close>

lemma addBorrow_unchanged:
  "getBookById s i = None \<or> (\<exists>bk. getBookById s i = Some bk \<and> \<not> available bk) \<Longrightarrow>
   fst (addBorrow z s i ue t1 t2) = s"
  by (auto simp: addBorrow_def)

lemma addBorrow_half:
  assumes "getBookById s i = Some bk" "available bk" "bind_email ue = Inl e"
  shows "addBorrow z s i ue t1 t2 =
      (s\<lparr>books := map (\<lambda>b. if id_bk b = i then b\<lparr>available := False\<rparr> else b) (books s)\<rparr>, Inl e)"
  using assms by (simp add: addBorrow_def Let_def)

lemma addBorrow_available:
  assumes "getBookById s i = Some bk" "available bk" "bind_email ue = Inr v"
  shows "addBorrow z s i ue t1 t2 =
      (s\<lparr>books := map (\<lambda>b. if id_bk b = i then b\<lparr>available := False\<rparr> else b) (books s),
         borrows := borrows s @
           [\<lparr>id_br = next_rowid (borrow_seq s) (map id_br (borrows s)), book_id = i,
             user_email = v, borrow_date = t1, return_date = plus14days z t2,
             returned = False\<rparr>],
         borrow_seq := next_rowid (borrow_seq s) (map id_br (borrows s))\<rparr>,
       Inr \<lparr>changes = 1, lastInsertRowid = next_rowid (borrow_seq s) (map id_br (borrows s))\<rparr>)"
  using assms by (simp add: addBorrow_def Let_def)

lemma addBorrow_cases:
  obtains
    (unchanged) "fst (addBorrow z s i ue t1 t2) = s"
  | (half) bk e where "getBookById s i = Some bk" "available bk" "bind_email ue = Inl e"
      "fst (addBorrow z s i ue t1 t2) =
         s\<lparr>books := map (\<lambda>b. if id_bk b = i then b\<lparr>available := False\<rparr> else b) (books s)\<rparr>"
  | (full) bk v where "getBookById s i = Some bk" "available bk" "bind_email ue = Inr v"
      "fst (addBorrow z s i ue t1 t2) =
         s\<lparr>books := map (\<lambda>b. if id_bk b = i then b\<lparr>available := False\<rparr> else b) (books s),
           borrows := borrows s @
             [\<lparr>id_br = next_rowid (borrow_seq s) (map id_br (borrows s)), book_id = i,
               user_email = v, borrow_date = t1, return_date = plus14days z t2,
               returned = False\<rparr>],
           borrow_seq := next_rowid (borrow_seq s) (map id_br (borrows s))\<rparr>"
proof (cases "getBookById s i")
  case None
  then show ?thesis using unchanged addBorrow_unchanged by blast
next
  case (Some bk)
  show ?thesis
  proof (cases "available bk")
    case False
    with Some show ?thesis using unchanged addBorrow_unchanged by blast
  next
    case True
    show ?thesis
    proof (cases "bind_email ue")
      case (Inl e)
      from addBorrow_half [OF Some True Inl] half [OF Some True Inl] show ?thesis by simp
    next
      case (Inr v)
      from addBorrow_available [OF Some True Inr] full [OF Some True Inr] show ?thesis by simp
    qed
  qed
qed









lemma reachable_exec: "reachable z s \<Longrightarrow> reachable z (exec z s cs)"
  by (induction cs arbitrary: s) (auto intro: reachable.step)




subsection \<open>The foreign key in reachable states\<close>

lemma fk_books_map:
  assumes "\<And>b. id_bk (f b) = id_bk b"
  shows "loans_have_books (s\<lparr>books := map f (books s)\<rparr>) = loans_have_books s"
  by (simp add: loans_have_books_def comp_def assms)

lemma fk_addBook: "loans_have_books s \<Longrightarrow> loans_have_books (after s (addBook s t a i))"
  by (auto simp: loans_have_books_def after_def addBook_def Let_def)

lemma fk_updateBook:
  assumes f: "loans_have_books s"
  shows "loans_have_books (after s (updateBook s i t a n))"
proof -
  let ?fu = "\<lambda>b. if id_bk b = i
                 then b\<lparr>title := set_field t (title b), author := set_field a (author b),
                        isbn := set_field n (isbn b)\<rparr>
                 else b"
  have "after s (updateBook s i t a n) = s \<or>
        after s (updateBook s i t a n) = s\<lparr>books := map ?fu (books s)\<rparr>"
    by (simp add: after_def updateBook_def Let_def split: option.splits)
  moreover have "loans_have_books (s\<lparr>books := map ?fu (books s)\<rparr>) = loans_have_books s"
    by (rule fk_books_map) simp
  ultimately show ?thesis using f by auto
qed

lemma fk_deleteBook:
  assumes f: "loans_have_books s"
  shows "loans_have_books (after s (deleteBook s i))"
proof (cases "i \<in> set (map id_bk (books s)) \<and> i \<in> set (map book_id (borrows s))")
  case True
  then show ?thesis using f by (simp add: after_def deleteBook_def)
next
  case False
  define s' where "s' = s\<lparr>books := filter (\<lambda>b. id_bk b \<noteq> i) (books s)\<rparr>"
  from False have a: "after s (deleteBook s i) = s'"
    by (auto simp: after_def deleteBook_def s'_def)
  show ?thesis unfolding a loans_have_books_def
  proof
    fix l
    assume "l \<in> set (borrows s')"
    then have l: "l \<in> set (borrows s)" by (simp add: s'_def)
    with f obtain bk where bk: "bk \<in> set (books s)" "id_bk bk = book_id l"
      by (auto simp: loans_have_books_def)
    with l False have "id_bk bk \<noteq> i" by force
    with bk have "bk \<in> set (books s')" by (simp add: s'_def)
    with bk(2) show "book_id l \<in> set (map id_bk (books s'))" by force
  qed
qed

lemma fk_addBorrow:
  assumes f: "loans_have_books s"
  shows "loans_have_books (fst (addBorrow z s i ue t1 t2))"
proof (cases rule: addBorrow_cases [of z s i ue t1 t2])
  case unchanged
  with f show ?thesis by simp
next
  case (half bk e)
  show ?thesis unfolding half(4) using f by (subst fk_books_map) simp_all
next
  case (full bk v)
  from full(1) have bk: "bk \<in> set (books s)" "id_bk bk = i"
    using find_Some_key [of id_bk i "books s" bk] by (simp_all add: getBookById_def)
  then have "i \<in> id_bk ` set (books s)" by blast
  then show ?thesis
    unfolding full(4) using f
    by (auto simp: loans_have_books_def comp_def row_if cong: if_cong)
qed

lemma fk_rows_map:
  assumes "\<And>b. id_bk (f b) = id_bk b" and "\<And>l. book_id (g l) = book_id l"
  shows "loans_have_books (s\<lparr>books := map f (books s), borrows := map g (borrows s)\<rparr>)
         = loans_have_books s"
  by (simp add: loans_have_books_def comp_def assms)

lemma fk_markAsReturned:
  assumes f: "loans_have_books s"
  shows "loans_have_books (after s (markAsReturned s i))"
proof (cases "find (\<lambda>l. id_br l = i) (borrows s)")
  case None
  then show ?thesis using f by (simp add: after_def markAsReturned_def)
next
  case (Some x)
  let ?fb = "\<lambda>b. if id_bk b = book_id x then b\<lparr>available := True\<rparr> else b"
  let ?fl = "\<lambda>l. if id_br l = i then l\<lparr>returned := True\<rparr> else l"
  have a: "after s (markAsReturned s i) = s\<lparr>books := map ?fb (books s), borrows := map ?fl (borrows s)\<rparr>"
    by (simp add: after_def markAsReturned_def Some Let_def)
  show ?thesis unfolding a using f by (subst fk_rows_map) simp_all
qed

lemma fk_apply_op: "loans_have_books s \<Longrightarrow> loans_have_books (apply_op z s c)"
  by (cases c) (simp_all add: fk_addBook fk_updateBook fk_deleteBook fk_addBorrow
      fk_markAsReturned)

lemma reachable_loans_have_books: "reachable z s \<Longrightarrow> loans_have_books s"
proof (induction rule: reachable.induct)
  case init
  show ?case by (simp add: loans_have_books_def initDB_def)
next
  case (step s c)
  then show ?case by (simp add: fk_apply_op)
qed

subsection \<open>The availability flag in reachable states\<close>


















subsection \<open>The notification queries\<close>

lemma set_join_books:
  "set (join_books s p) =
     {\<lparr>loan = l, book_title = title bk, book_author = author bk\<rparr> | l bk.
        l \<in> set (borrows s) \<and> p l \<and> bk \<in> set (books s) \<and> book_id l = id_bk bk}"
  by (auto simp: join_books_def)

lemma join_books_has_book:
  "r \<in> set (join_books s p) \<Longrightarrow>
     loan r \<in> set (borrows s) \<and> p (loan r) \<and> book_id (loan r) \<in> set (map id_bk (books s))"
  by (auto simp: set_join_books)

lemma join_books_has_loan:
  assumes "l \<in> set (borrows s)" "p l" "book_id l \<in> set (map id_bk (books s))"
  shows "\<exists>r \<in> set (join_books s p). loan r = l"
proof -
  from assms(3) obtain bk where "bk \<in> set (books s)" "book_id l = id_bk bk" by auto
  with assms(1,2)
  have "\<lparr>loan = l, book_title = title bk, book_author = author bk\<rparr> \<in> set (join_books s p)"
    unfolding set_join_books by blast
  then show ?thesis by force
qed


lemma set_overdue_loop: "set (overdue_loop tr rs) \<subseteq> set rs"
  by (induction rs) auto

subsection \<open>The calendar is monotone\<close>

lemma era_days_step:
  assumes "0 \<le> doe" "doe < 146096"
  shows "era_days doe \<le> era_days (doe + 1)"
proof (cases "doe + 1 = 146096")
  case True
  then have "doe = 146095" by simp
  then show ?thesis by (simp add: era_days_def)
next
  case False
  with assms have a: "(doe + 1) div 146096 = 0" "doe div 146096 = 0" by simp_all
  have b: "(doe + 1) div 1460 \<le> doe div 1460 + 1" by linarith
  have c: "doe div 36524 \<le> (doe + 1) div 36524" by (rule zdiv_mono1) simp_all
  show ?thesis unfolding era_days_def a using b c by linarith
qed

lemma era_days_mono:
  assumes "0 \<le> a" "a \<le> b" "b \<le> 146096"
  shows "era_days a \<le> era_days b"
proof -
  have "\<And>a. 0 \<le> a \<Longrightarrow> a + int n \<le> 146096 \<Longrightarrow> era_days a \<le> era_days (a + int n)" for n
  proof (induction n)
    case 0
    show ?case by simp
  next
    case (Suc n)
    have "era_days a \<le> era_days (a + int n)" using Suc by simp
    also have "\<dots> \<le> era_days (a + int n + 1)"
      using Suc.prems by (intro era_days_step) simp_all
    finally show ?case by (simp add: ac_simps)
  qed
  from this [of a "nat (b - a)"] assms show ?thesis by simp
qed

lemma yoe_of_mono: "0 \<le> a \<Longrightarrow> a \<le> b \<Longrightarrow> b \<le> 146096 \<Longrightarrow> yoe_of a \<le> yoe_of b"
  unfolding yoe_of_def by (intro zdiv_mono1 era_days_mono) simp_all

lemma yoe_of_bounds:
  assumes "0 \<le> doe" "doe \<le> 146096"
  shows "0 \<le> yoe_of doe" "yoe_of doe \<le> 399"
proof -
  have "yoe_of 0 \<le> yoe_of doe" using assms by (intro yoe_of_mono) simp_all
  then show "0 \<le> yoe_of doe" by (simp add: yoe_of_def era_days_def)
  have "yoe_of doe \<le> yoe_of 146096" using assms by (intro yoe_of_mono) simp_all
  then show "yoe_of doe \<le> 399" by (simp add: yoe_of_def era_days_def)
qed

lemma year_boundaries:
  "list_all (\<lambda>y. yoe_of (year_start y - 1) < y) [1..399]"
  "list_all (\<lambda>y. y < yoe_of (year_start y + 366)) [0..398]"
  by code_simp+

lemma year_start_bounds:
  assumes "0 \<le> y" "y \<le> 399"
  shows "0 \<le> year_start y" "year_start y \<le> 145731"
  using assms unfolding year_start_def by linarith+

lemma year_start_0: "year_start 0 = 0"
  by (simp add: year_start_def)

lemma doy_bounds:
  assumes d: "0 \<le> doe" "doe \<le> 146096"
  shows "0 \<le> doe - year_start (yoe_of doe)" "doe - year_start (yoe_of doe) \<le> 365"
proof -
  let ?y = "yoe_of doe"
  have y: "0 \<le> ?y" "?y \<le> 399" using d by (rule yoe_of_bounds)+
  note s = year_start_bounds [OF y]
  show "0 \<le> doe - year_start ?y"
  proof (rule ccontr)
    assume "\<not> 0 \<le> doe - year_start ?y"
    then have lt: "doe \<le> year_start ?y - 1" by simp
    with d year_start_0 have "?y \<noteq> 0" by auto
    with y have "?y \<in> set [1..399]" by simp
    with year_boundaries(1) have "yoe_of (year_start ?y - 1) < ?y"
      unfolding list_all_iff by blast
    moreover have "?y \<le> yoe_of (year_start ?y - 1)"
      using d lt s by (intro yoe_of_mono) simp_all
    ultimately show False by simp
  qed
  show "doe - year_start ?y \<le> 365"
  proof (rule ccontr)
    assume "\<not> doe - year_start ?y \<le> 365"
    then have ge: "year_start ?y + 366 \<le> doe" by simp
    have "?y \<noteq> 399"
    proof
      assume "?y = 399"
      with ge have "year_start 399 + 366 \<le> doe" by simp
      with d show False by (simp add: year_start_def)
    qed
    with y have "?y \<in> set [0..398]" by simp
    with year_boundaries(2) have "?y < yoe_of (year_start ?y + 366)"
      unfolding list_all_iff by blast
    moreover have "yoe_of (year_start ?y + 366) \<le> ?y"
      using d ge s by (intro yoe_of_mono) simp_all
    ultimately show False by simp
  qed
qed

lemma doe_of_bounds: "0 \<le> doe_of z" "doe_of z \<le> 146096"
  by (simp_all add: doe_of_def)

lemma doy_of_bounds: "0 \<le> doy_of z" "doy_of z \<le> 365"
  unfolding doy_of_def using doy_bounds [OF doe_of_bounds] by blast+

lemma mp_of_bounds: "0 \<le> mp_of z" "mp_of z \<le> 11"
  unfolding mp_of_def using doy_of_bounds [of z] by linarith+

lemma dom_of_bounds: "1 \<le> dom_of z" "dom_of z \<le> 31"
  unfolding dom_of_def mp_of_def using doy_of_bounds [of z] by linarith+

lemma civil_from_days_raw:
  "civil_from_days z =
     (march_year z + (if (if mp_of z < 10 then mp_of z + 3 else mp_of z - 9) \<le> 2 then 1 else 0),
      if mp_of z < 10 then mp_of z + 3 else mp_of z - 9,
      dom_of z)"
  by (simp only: civil_from_days_def Let_def march_year_def era_of_def doe_of_def doy_of_def
      mp_of_def dom_of_def yoe_of_def era_days_def year_start_def)

lemma civil_from_days_parts:
  "civil_from_days z =
     (march_year z + (if mp_of z < 10 then 0 else 1),
      if mp_of z < 10 then mp_of z + 3 else mp_of z - 9,
      dom_of z)"
proof -
  have "((if mp_of z < 10 then mp_of z + 3 else mp_of z - 9) \<le> 2) = (\<not> mp_of z < 10)"
    using mp_of_bounds [of z] by auto
  then show ?thesis unfolding civil_from_days_raw by simp
qed

lemma march_less:
  assumes "z1 < z2"
  shows "march_year z1 < march_year z2 \<or>
         (march_year z1 = march_year z2 \<and>
          (mp_of z1 < mp_of z2 \<or> (mp_of z1 = mp_of z2 \<and> dom_of z1 < dom_of z2)))"
proof -
  have e: "era_of z1 \<le> era_of z2"
    unfolding era_of_def using assms by (intro zdiv_mono1) simp_all
  have s1: "z1 + 719468 = era_of z1 * 146097 + doe_of z1"
    by (simp add: era_of_def doe_of_def)
  have s2: "z2 + 719468 = era_of z2 * 146097 + doe_of z2"
    by (simp add: era_of_def doe_of_def)
  note y1 = yoe_of_bounds [OF doe_of_bounds, of z1]
  note y2 = yoe_of_bounds [OF doe_of_bounds, of z2]
  show ?thesis
  proof (cases "era_of z1 < era_of z2")
    case True
    then have "march_year z1 < march_year z2"
      unfolding march_year_def using y1 y2 by linarith
    then show ?thesis by simp
  next
    case False
    with e have ee: "era_of z1 = era_of z2" by simp
    with s1 s2 assms have d: "doe_of z1 < doe_of z2" by linarith
    have yy: "yoe_of (doe_of z1) \<le> yoe_of (doe_of z2)"
      using d doe_of_bounds [of z1] doe_of_bounds [of z2] by (intro yoe_of_mono) simp_all
    show ?thesis
    proof (cases "yoe_of (doe_of z1) < yoe_of (doe_of z2)")
      case True
      then show ?thesis by (simp add: march_year_def ee)
    next
      case False
      with yy have ye: "yoe_of (doe_of z1) = yoe_of (doe_of z2)" by simp
      then have my: "march_year z1 = march_year z2" by (simp add: march_year_def ee)
      from d ye have dy: "doy_of z1 < doy_of z2" by (simp add: doy_of_def)
      then have mm: "mp_of z1 \<le> mp_of z2"
        unfolding mp_of_def by (intro zdiv_mono1) simp_all
      show ?thesis
      proof (cases "mp_of z1 < mp_of z2")
        case True
        with my show ?thesis by simp
      next
        case False
        with mm have "mp_of z1 = mp_of z2" by simp
        with dy my show ?thesis by (simp add: dom_of_def)
      qed
    qed
  qed
qed

lemma civil_less:
  assumes "z1 < z2" "civil_from_days z1 = (y1, m1, d1)" "civil_from_days z2 = (y2, m2, d2)"
  shows "y1 < y2 \<or> (y1 = y2 \<and> (m1 < m2 \<or> (m1 = m2 \<and> d1 < d2)))"
proof -
  from assms(2) have a: "y1 = march_year z1 + (if mp_of z1 < 10 then 0 else 1)"
    "m1 = (if mp_of z1 < 10 then mp_of z1 + 3 else mp_of z1 - 9)" "d1 = dom_of z1"
    by (simp_all add: civil_from_days_parts)
  from assms(3) have b: "y2 = march_year z2 + (if mp_of z2 < 10 then 0 else 1)"
    "m2 = (if mp_of z2 < 10 then mp_of z2 + 3 else mp_of z2 - 9)" "d2 = dom_of z2"
    by (simp_all add: civil_from_days_parts)
  show ?thesis
    using march_less [OF assms(1)] mp_of_bounds [of z1] mp_of_bounds [of z2]
    unfolding a b by (auto split: if_splits)
qed

lemma civil_bounds:
  assumes "civil_from_days z = (y, m, d)"
  shows "1 \<le> m" "m \<le> 12" "1 \<le> d" "d \<le> 31"
  using assms mp_of_bounds [of z] dom_of_bounds [of z]
  by (auto simp: civil_from_days_parts split: if_splits)

lemma civil_year_bounds:
  assumes "0 \<le> z" "z \<le> 2932896" "civil_from_days z = (y, m, d)"
  shows "0 \<le> y" "y \<le> 9999"
proof -
  have e: "4 \<le> era_of z" "era_of z \<le> 24"
    unfolding era_of_def using assms(1,2) by linarith+
  note yb = yoe_of_bounds [OF doe_of_bounds, of z]
  from assms(3) have y: "y = march_year z + (if mp_of z < 10 then 0 else 1)"
    by (simp add: civil_from_days_parts)
  show "0 \<le> y" unfolding y march_year_def using e yb by (auto split: if_splits)
  show "y \<le> 9999"
  proof (cases "era_of z = 24 \<and> yoe_of (doe_of z) = 399")
    case False
    then show ?thesis unfolding y march_year_def using e yb by (auto split: if_splits)
  next
    case True
    have "z + 719468 = era_of z * 146097 + doe_of z"
      by (simp add: era_of_def doe_of_def)
    with True assms(2) have "doe_of z \<le> 146036" by simp
    with True have "doy_of z \<le> 305" by (simp add: doy_of_def year_start_def)
    then have "mp_of z < 10" unfolding mp_of_def by linarith
    then show ?thesis unfolding y march_year_def using True by simp
  qed
qed

lemma digit_char: "digit n = char_of (48 + nat (n mod 10))"
proof -
  have t: "\<forall>k \<in> {..<10::nat}. ''0123456789'' ! k = char_of (48 + k)"
    by code_simp
  have "nat (n mod 10) \<in> {..<10}" by simp
  with t show ?thesis unfolding digit_def by blast
qed

lemma digit_less: "(digit a < digit b) = (a mod 10 < b mod 10)"
proof -
  have a: "0 \<le> a mod 10" "a mod 10 < 10" and b: "0 \<le> b mod 10" "b mod 10 < 10" by simp_all
  have "(digit a < digit b) = (48 + nat (a mod 10) < 48 + nat (b mod 10))"
    unfolding digit_char less_char_def using a b by simp
  also have "\<dots> = (a mod 10 < b mod 10)" using a b by linarith
  finally show ?thesis .
qed

lemma digit_eq: "(digit a = digit b) = (a mod 10 = b mod 10)"
proof -
  have a: "0 \<le> a mod 10" "a mod 10 < 10" and b: "0 \<le> b mod 10" "b mod 10 < 10" by simp_all
  have "(digit a = digit b) = (of_char (digit a) = (of_char (digit b) :: nat))"
    by simp
  also have "\<dots> = (48 + nat (a mod 10) = 48 + nat (b mod 10))"
    unfolding digit_char using a b by simp
  also have "\<dots> = (a mod 10 = b mod 10)" using a b by linarith
  finally show ?thesis .
qed

lemma less_by_tens:
  "((a::int) < b) =
     (a div 10 < b div 10 \<or> (a div 10 = b div 10 \<and> a mod 10 < b mod 10))"
proof -
  define qa ra qb rb where "qa = a div 10" and "ra = a mod 10"
    and "qb = b div 10" and "rb = b mod 10"
  have a: "a = 10 * qa + ra" "0 \<le> ra" "ra < 10"
    and b: "b = 10 * qb + rb" "0 \<le> rb" "rb < 10"
    by (simp_all add: qa_def ra_def qb_def rb_def)
  have "(a < b) = (qa < qb \<or> (qa = qb \<and> ra < rb))"
    using a b by auto
  then show ?thesis by (simp add: qa_def ra_def qb_def rb_def)
qed

lemma less_by_hundreds:
  "((a::int) < b) =
     (a div 100 < b div 100 \<or> (a div 100 = b div 100 \<and> a mod 100 < b mod 100))"
proof -
  define qa ra qb rb where "qa = a div 100" and "ra = a mod 100"
    and "qb = b div 100" and "rb = b mod 100"
  have a: "a = 100 * qa + ra" "0 \<le> ra" "ra < 100"
    and b: "b = 100 * qb + rb" "0 \<le> rb" "rb < 100"
    by (simp_all add: qa_def ra_def qb_def rb_def)
  have "(a < b) = (qa < qb \<or> (qa = qb \<and> ra < rb))"
    using a b by auto
  then show ?thesis by (simp add: qa_def ra_def qb_def rb_def)
qed

lemma pad2_less:
  assumes "0 \<le> a" "a \<le> 99" "0 \<le> b" "b \<le> 99"
  shows "(pad2 a @ r < pad2 b @ s) = (a < b \<or> (a = b \<and> r < s))"
proof -
  have d: "(a div 10) mod 10 = a div 10" "(b div 10) mod 10 = b div 10"
    using assms by simp_all
  have eq: "(a = b) = (a div 10 = b div 10 \<and> a mod 10 = b mod 10)"
    by (metis div_mult_mod_eq)
  note lt = less_by_tens [of a b]
  show ?thesis
    unfolding pad2_def eq lt by (simp add: digit_less digit_eq d) blast
qed

lemma pad4_pad2: "pad4 y = pad2 (y div 100) @ pad2 (y mod 100)"
proof -
  have "y div 100 div 10 = y div 1000"
    using zdiv_zmult2_eq [of 10 y 100] by simp
  then have a: "digit (y div 100 div 10) = digit (y div 1000)" by simp
  have "y mod 100 = 10 * (y div 10 mod 10) + y mod 10"
    using zmod_zmult2_eq [of 10 y 10] by simp
  then have "y mod 100 div 10 = y div 10 mod 10" by simp
  then have b: "digit (y mod 100 div 10) = digit (y div 10)"
    by (simp add: digit_eq)
  have "y mod 100 mod 10 = y mod 10" by (simp add: mod_mod_cancel)
  then have c: "digit (y mod 100) = digit y"
    by (simp add: digit_eq)
  show ?thesis by (simp add: pad4_def pad2_def a b c)
qed

lemma pad4_less:
  assumes "0 \<le> a" "a \<le> 9999" "0 \<le> b" "b \<le> 9999"
  shows "(pad4 a @ r < pad4 b @ s) = (a < b \<or> (a = b \<and> r < s))"
proof -
  have h: "0 \<le> a div 100" "a div 100 \<le> 99" "0 \<le> b div 100" "b div 100 \<le> 99"
    "0 \<le> a mod 100" "a mod 100 \<le> 99" "0 \<le> b mod 100" "b mod 100 \<le> 99"
    using assms by simp_all
  have eq: "(a = b) = (a div 100 = b div 100 \<and> a mod 100 = b mod 100)"
    by (metis div_mult_mod_eq)
  show ?thesis
    unfolding pad4_pad2 append_assoc pad2_less [OF h(1-4)] pad2_less [OF h(5-8)] eq
      less_by_hundreds [of a b]
    by blast
qed

lemma date_text_less:
  assumes "0 \<le> y1" "y1 \<le> 9999" "0 \<le> y2" "y2 \<le> 9999"
    and "1 \<le> m1" "m1 \<le> 12" "1 \<le> m2" "m2 \<le> 12"
    and "1 \<le> d1" "d1 \<le> 31" "1 \<le> d2" "d2 \<le> 31"
  shows "(pad4 y1 @ ''-'' @ pad2 m1 @ ''-'' @ pad2 d1 < pad4 y2 @ ''-'' @ pad2 m2 @ ''-'' @ pad2 d2)
         = (y1 < y2 \<or> (y1 = y2 \<and> (m1 < m2 \<or> (m1 = m2 \<and> d1 < d2))))"
proof -
  have m: "0 \<le> m1" "m1 \<le> 99" "0 \<le> m2" "m2 \<le> 99" using assms by simp_all
  have d: "0 \<le> d1" "d1 \<le> 99" "0 \<le> d2" "d2 \<le> 99" using assms by simp_all
  have dd: "(pad2 d1 < pad2 d2) = (d1 < d2)"
    using pad2_less [OF d, of "[]" "[]"] by simp
  show ?thesis
    unfolding pad4_less [OF assms(1-4)]
    by (simp add: pad2_less [OF m] dd)
qed

lemma sql_date_less:
  assumes "0 \<le> t1" "t1 < 253402300800000" "0 \<le> t2" "t2 < 253402300800000"
  shows "(sql_date t1 < sql_date t2) = (t1 div msPerDay < t2 div msPerDay)"
proof -
  define z1 z2 where "z1 = t1 div msPerDay" and "z2 = t2 div msPerDay"
  have z: "0 \<le> z1" "z1 \<le> 2932896" "0 \<le> z2" "z2 \<le> 2932896"
    using assms unfolding z1_def z2_def msPerDay_def by linarith+
  obtain y1 m1 d1 where c1: "civil_from_days z1 = (y1, m1, d1)"
    by (cases "civil_from_days z1") auto
  obtain y2 m2 d2 where c2: "civil_from_days z2 = (y2, m2, d2)"
    by (cases "civil_from_days z2") auto
  note b1 = civil_year_bounds [OF z(1,2) c1] civil_bounds [OF c1]
  note b2 = civil_year_bounds [OF z(3,4) c2] civil_bounds [OF c2]
  let ?lex = "\<lambda>y1 m1 d1 y2 m2 (d2::int).
      (y1::int) < y2 \<or> (y1 = y2 \<and> ((m1::int) < m2 \<or> (m1 = m2 \<and> d1 < d2)))"
  have t: "(sql_date t1 < sql_date t2) = ?lex y1 m1 d1 y2 m2 d2"
    unfolding sql_date_def z1_def [symmetric] z2_def [symmetric] c1 c2 prod.case
    by (rule date_text_less) (use b1 b2 in simp_all)
  have "?lex y1 m1 d1 y2 m2 d2 = (z1 < z2)"
  proof
    assume l: "?lex y1 m1 d1 y2 m2 d2"
    show "z1 < z2"
    proof (rule ccontr)
      assume "\<not> z1 < z2"
      then consider "z1 = z2" | "z2 < z1" by linarith
      then show False
      proof cases
        case 1
        with c1 c2 l show False by simp
      next
        case 2
        from civil_less [OF 2 c2 c1] l show False by linarith
      qed
    qed
  next
    assume "z1 < z2"
    from civil_less [OF this c1 c2] show "?lex y1 m1 d1 y2 m2 d2" .
  qed
  with t show ?thesis by (simp add: z1_def z2_def)
qed

subsection \<open>Comparing date texts\<close>

lemma length_sql_date: "length (sql_date t) = 10"
  by (simp add: sql_date_def pad4_def pad2_def split: prod.splits)

lemma iso_time_nonempty: "iso_time t \<noteq> []"
  by (simp add: iso_time_def Let_def)

lemma append_less_same_length:
  "length p = length q \<Longrightarrow> r \<noteq> [] \<Longrightarrow> (p @ r < q) = (p < (q :: char list))"
  by (induction p q rule: list_induct2) auto

lemma overdue_text: "(toISOString rd < sql_date now) = (sql_date rd < sql_date now)"
  unfolding toISOString_def
  by (rule append_less_same_length) (simp_all add: length_sql_date iso_time_nonempty)

lemma sql_date_same_day:
  "rd div msPerDay = now div msPerDay \<Longrightarrow> \<not> sql_date rd < sql_date now"
  by (simp add: sql_date_def)

lemma markAsReturned_returned:
  assumes m: "markAsReturned s k = Inr (s', ok)" and l: "l \<in> set (borrows s')"
    and i: "id_br l = k"
  shows "returned l"
proof -
  from m obtain x where x: "find (\<lambda>l. id_br l = k) (borrows s) = Some x"
    by (cases "find (\<lambda>l. id_br l = k) (borrows s)") (simp_all add: markAsReturned_def)
  define f where "f = (\<lambda>l :: borrow. if id_br l = k then l\<lparr>returned := True\<rparr> else l)"
  from m x have "borrows s' = map f (borrows s)"
    by (auto simp: markAsReturned_def Let_def f_def)
  with l have "l \<in> f ` set (borrows s)" by simp
  then obtain l0 where l0: "l = f l0" by blast
  show ?thesis
  proof (cases "id_br l0 = k")
    case True
    with l0 show ?thesis by (simp add: f_def)
  next
    case False
    with l0 i show ?thesis by (simp add: f_def)
  qed
qed

subsection \<open>The loop of the due-soon job\<close>





section \<open>Borrowing and returning\<close>

text \<open>
  C3. A borrow request for a book whose \<open>available\<close> is false fails: addBorrow throws
  "Book is not available" and leaves the database as it was, and POST /borrow answers
  400 whatever the rest of the request is, hands nothing to the mail transport and
  returns the database as it was, so no loan is created and no book or loan row
  changes. For a request that passes validation the answer is the business-rule
  error itself.
\<close>

theorem borrow_unavailable_rejected:
  assumes b: "getBookById s bi = Some bk" and u: "\<not> available bk"
  shows "addBorrow z s bi ue t1 t2 = (s, Inl BookNotAvailable)
       \<and> fst (postBorrow z tr s (Some bi) uo t1 t2 t3) = s
       \<and> fst (snd (postBorrow z tr s (Some bi) uo t1 t2 t3)) = []
       \<and> status (snd (snd (postBorrow z tr s (Some bi) uo t1 t2 t3))) = 400
       \<and> (bi \<noteq> 0 \<and> email_ok (email_string ue) \<longrightarrow>
            postBorrow z tr s (Some bi) (Some ue) t1 t2 t3 =
              (s, [], \<lparr>status = 400, body = ErrorBody ''Book is not available''\<rparr>))"
proof -
  have a: "\<And>e. addBorrow z s bi e t1 t2 = (s, Inl BookNotAvailable)"
    using b u by (simp add: addBorrow_def)
  have r: "\<And>e. bi \<noteq> 0 \<Longrightarrow> email_ok (email_string e) \<Longrightarrow>
            postBorrow z tr s (Some bi) (Some e) t1 t2 t3 =
              (s, [], \<lparr>status = 400, body = ErrorBody ''Book is not available''\<rparr>)"
    using b by (simp add: postBorrow_def a borrow_catch_def email_ok_truthy)
  have g: "fst (postBorrow z tr s (Some bi) uo t1 t2 t3) = s
       \<and> fst (snd (postBorrow z tr s (Some bi) uo t1 t2 t3)) = []
       \<and> status (snd (snd (postBorrow z tr s (Some bi) uo t1 t2 t3))) = 400"
    using b by (cases uo) (simp_all add: postBorrow_def a borrow_catch_def)
  show ?thesis using a r g by blast
qed

theorem borrow_unavailable_rejected_witness:
  "getBookById state_borrowed 1 = Some (hd (books state_borrowed))
   \<and> \<not> available (hd (books state_borrowed))
   \<and> (1::int) \<noteq> 0 \<and> email_ok (email_string (EmailText ''z@y.com''))
   \<and> postBorrow utc_zone (\<lambda>m. True) state_borrowed (Some 1) (Some (EmailText ''z@y.com''))
        1705392000000 1705392000000 1705392000001 =
       (state_borrowed, [], \<lparr>status = 400, body = ErrorBody ''Book is not available''\<rparr>)"
proof -
  have b: "getBookById state_borrowed 1 = Some (hd (books state_borrowed))"
    by (simp add: state_borrowed_eq getBookById_def)
  have u: "\<not> available (hd (books state_borrowed))"
    by (simp add: state_borrowed_eq)
  have e: "email_ok (email_string (EmailText ''z@y.com''))"
    by (simp add: email_ok_examples)
  show ?thesis
    using borrow_unavailable_rejected [OF b u, where z = utc_zone
        and ue = "EmailText ''z@y.com''" and ?t1.0 = 1705392000000 and ?t2.0 = 1705392000000
        and tr = "\<lambda>m. True" and uo = "Some (EmailText ''z@y.com'')" and ?t3.0 = 1705392000001]
      b u e
    by simp
qed

text \<open>
  C4. Returning a loan fails with "Borrow record not found" (404) exactly when no
  borrow row has the id. When the row exists and is active, markAsReturned sets
  \<open>returned\<close> of the row and \<open>available\<close> of the book it references, changes nothing
  else, and the route answers 200.
\<close>

theorem return_loan_spec:
  "(status (snd (postReturn s i)) = 404) = (i \<notin> set (map id_br (borrows s)))
   \<and> (markAsReturned s i = Inl BorrowNotFound) = (i \<notin> set (map id_br (borrows s)))
   \<and> (find (\<lambda>l. id_br l = i) (borrows s) = Some l \<and> \<not> returned l \<longrightarrow>
        markAsReturned s i =
          Inr (s\<lparr>books := map (\<lambda>b. if id_bk b = book_id l then b\<lparr>available := True\<rparr> else b)
                              (books s),
                 borrows := map (\<lambda>l'. if id_br l' = i then l'\<lparr>returned := True\<rparr> else l')
                                (borrows s)\<rparr>, True)
        \<and> postReturn s i =
            (s\<lparr>books := map (\<lambda>b. if id_bk b = book_id l then b\<lparr>available := True\<rparr> else b)
                              (books s),
                 borrows := map (\<lambda>l'. if id_br l' = i then l'\<lparr>returned := True\<rparr> else l')
                                (borrows s)\<rparr>,
             \<lparr>status = 200, body = MessageBody ''Book returned successfully''\<rparr>)
        \<and> (\<forall>l' \<in> set (borrows (fst (postReturn s i))). id_br l' = i \<longrightarrow> returned l')
        \<and> (\<forall>b \<in> set (books (fst (postReturn s i))). id_bk b = book_id l \<longrightarrow> available b))"
proof (cases "find (\<lambda>l. id_br l = i) (borrows s)")
  case None
  then have n: "i \<notin> set (map id_br (borrows s))" by (simp add: find_None_key)
  from None have m: "markAsReturned s i = Inl BorrowNotFound"
    by (simp add: markAsReturned_def)
  show ?thesis using None n m by (simp add: postReturn_def)
next
  case (Some x)
  then have x: "x \<in> set (borrows s)" "id_br x = i" using find_Some_key by fastforce+
  then have n: "i \<in> set (map id_br (borrows s))" by force
  have e: "filter (\<lambda>l'. id_br l' = i) (borrows s) \<noteq> []"
    using x by (auto simp: filter_empty_conv)
  have m: "markAsReturned s i =
          Inr (s\<lparr>books := map (\<lambda>b. if id_bk b = book_id x then b\<lparr>available := True\<rparr> else b)
                              (books s),
                 borrows := map (\<lambda>l'. if id_br l' = i then l'\<lparr>returned := True\<rparr> else l')
                                (borrows s)\<rparr>, True)"
    using e by (simp add: markAsReturned_def Some Let_def)
  show ?thesis using n Some by (auto simp: m postReturn_def)
qed

theorem return_loan_spec_witness:
  "find (\<lambda>l. id_br l = 1) (borrows state_borrowed) = Some (hd (borrows state_borrowed))
   \<and> \<not> returned (hd (borrows state_borrowed))
   \<and> status (snd (postReturn state_borrowed 1)) = 200
   \<and> map returned (borrows (fst (postReturn state_borrowed 1))) = [True]
   \<and> map available (books (fst (postReturn state_borrowed 1))) = [True]
   \<and> status (snd (postReturn state_borrowed 2)) = 404"
proof -
  have f: "find (\<lambda>l. id_br l = 1) (borrows state_borrowed) = Some (hd (borrows state_borrowed))"
    by (simp add: state_borrowed_eq)
  have r: "\<not> returned (hd (borrows state_borrowed))"
    by (simp add: state_borrowed_eq)
  have n: "(2::int) \<notin> set (map id_br (borrows state_borrowed))"
    by (simp add: state_borrowed_eq)
  show ?thesis
    using return_loan_spec [of state_borrowed 1 "hd (borrows state_borrowed)"]
      return_loan_spec [of state_borrowed 2 "hd (borrows state_borrowed)"] f r n
    by (simp add: state_borrowed_eq)
qed

text \<open>
  C5. Returning a loan that is already returned succeeds again (markAsReturned
  gives true, the route answers 200), and the database afterwards is the database
  before with \<open>available\<close> of the referenced book set to true: no loan row and no
  other book row changes.
\<close>

theorem second_return_only_remarks_book:
  assumes pk: "primary_keys s" and l: "l \<in> set (borrows s)" and r: "returned l"
  shows "markAsReturned s (id_br l) =
           Inr (s\<lparr>books := map (\<lambda>b. if id_bk b = book_id l then b\<lparr>available := True\<rparr> else b)
                               (books s)\<rparr>, True)
         \<and> status (snd (postReturn s (id_br l))) = 200
         \<and> fst (postReturn s (id_br l)) =
             s\<lparr>books := map (\<lambda>b. if id_bk b = book_id l then b\<lparr>available := True\<rparr> else b)
                            (books s)\<rparr>"
proof -
  from pk have d: "distinct (map id_br (borrows s))" by (simp add: primary_keys_def)
  have f: "find (\<lambda>y. id_br y = id_br l) (borrows s) = Some l"
    using find_primary_key [OF d l] .
  have "\<forall>l' \<in> set (borrows s). id_br l' = id_br l \<longrightarrow> returned l'"
    using key_unique [OF d _ l] r by blast
  then have m: "map (\<lambda>l'. if id_br l' = id_br l then l'\<lparr>returned := True\<rparr> else l') (borrows s)
                = borrows s"
    by (rule map_returned_same)
  have e: "filter (\<lambda>l'. id_br l' = id_br l) (borrows s) \<noteq> []"
    using l by (auto simp: filter_empty_conv)
  have mr: "markAsReturned s (id_br l) =
           Inr (s\<lparr>books := map (\<lambda>b. if id_bk b = book_id l then b\<lparr>available := True\<rparr> else b)
                               (books s)\<rparr>, True)"
    using e by (simp add: markAsReturned_def f m Let_def)
  show ?thesis by (simp add: mr postReturn_def)
qed

theorem second_return_only_remarks_book_witness:
  "primary_keys state_returned
   \<and> hd (borrows state_returned) \<in> set (borrows state_returned)
   \<and> returned (hd (borrows state_returned))
   \<and> markAsReturned state_returned 1 = Inr (state_returned, True)
   \<and> postReturn state_returned 1 =
       (state_returned, \<lparr>status = 200, body = MessageBody ''Book returned successfully''\<rparr>)"
proof -
  have pk: "primary_keys state_returned"
    by (simp add: state_returned_eq primary_keys_def)
  have l: "hd (borrows state_returned) \<in> set (borrows state_returned)"
    by (simp add: state_returned_eq)
  have r: "returned (hd (borrows state_returned))"
    by (simp add: state_returned_eq)
  show ?thesis
    using second_return_only_remarks_book [OF pk l r] pk l r
    by (simp add: state_returned_eq postReturn_def)
qed

section \<open>The availability invariant\<close>




section \<open>Notifications\<close>

text \<open>
  C9 as stated fails: deleteBook does not remove a book that has a loan. The foreign
  key of \<open>borrows\<close> is enforced, so for the borrowed book of \<open>state_borrowed\<close> the
  DELETE throws, the route answers 500 and the book row stays; the active loan is a
  row of getPendingReturns on the day before it is due (2024-01-28) and a row of
  getOverdueBooks on the day after (2024-01-30), when the overdue job sends its
  notice.
\<close>

theorem deleted_book_loan_counterexample:
  "reachable utc_zone state_borrowed
   \<and> map (\<lambda>l. (id_br l, book_id l, returned l)) (borrows state_borrowed) = [(1, 1, False)]
   \<and> deleteBook state_borrowed 1 = Inl ForeignKeyConstraint
   \<and> deleteRoute state_borrowed 1 =
       (state_borrowed, \<lparr>status = 500, body = ErrorBody ''FOREIGN KEY constraint failed''\<rparr>)
   \<and> apply_op utc_zone state_borrowed (DeleteBook 1) = state_borrowed
   \<and> map (\<lambda>r. id_br (loan r)) (getPendingReturns state_borrowed 1706428800000) = [1]
   \<and> map (\<lambda>r. id_br (loan r)) (getOverdueBooks state_borrowed 1706601600000) = [1]
   \<and> map (\<lambda>r. id_br (loan r)) (overdueCron (\<lambda>m. True) state_borrowed 1706601600000) = [1]"
proof -
  have r: "reachable utc_zone state_borrowed"
    unfolding state_borrowed_def by (rule reachable_exec) (rule reachable.init)
  have d: "map (\<lambda>l. (id_br l, book_id l, returned l)) (borrows state_borrowed) = [(1, 1, False)]
   \<and> deleteBook state_borrowed 1 = Inl ForeignKeyConstraint
   \<and> deleteRoute state_borrowed 1 =
       (state_borrowed, \<lparr>status = 500, body = ErrorBody ''FOREIGN KEY constraint failed''\<rparr>)
   \<and> apply_op utc_zone state_borrowed (DeleteBook 1) = state_borrowed"
    by (simp add: state_borrowed_eq deleteBook_def deleteRoute_def after_def)
  have q: "map (\<lambda>r. id_br (loan r)) (getPendingReturns state_borrowed 1706428800000) = [1]
   \<and> map (\<lambda>r. id_br (loan r)) (getOverdueBooks state_borrowed 1706601600000) = [1]
   \<and> map (\<lambda>r. id_br (loan r)) (overdueCron (\<lambda>m. True) state_borrowed 1706601600000) = [1]"
    unfolding state_borrowed_eq by code_simp
  from r d q show ?thesis by blast
qed

text \<open>
  C9, amended. Every row of getPendingReturns and of getOverdueBooks belongs to a loan
  whose book row exists (the join is an inner join). deleteBook removes a book only
  when no borrow row references it. In every state reachable by the five operations
  every loan has its book: deleteBook on the book of a loan throws and changes nothing
  (the route answers 500). So no loan loses its book, and every active loan is a row
  of getPendingReturns or of getOverdueBooks, whatever the clock reads.
\<close>

theorem borrowed_book_never_deleted:
  "(\<forall>r \<in> set (getPendingReturns s tq) \<union> set (getOverdueBooks s tq).
       book_id (loan r) \<in> set (map id_bk (books s)))
   \<and> (deleteBook s i = Inr (s', True) \<longrightarrow>
        i \<notin> set (map book_id (borrows s)) \<and>
        s' = s\<lparr>books := filter (\<lambda>b. id_bk b \<noteq> i) (books s)\<rparr>)
   \<and> (reachable z s \<and> l \<in> set (borrows s) \<longrightarrow>
        book_id l \<in> set (map id_bk (books s))
        \<and> deleteBook s (book_id l) = Inl ForeignKeyConstraint
        \<and> deleteRoute s (book_id l) =
            (s, \<lparr>status = 500, body = ErrorBody ''FOREIGN KEY constraint failed''\<rparr>)
        \<and> apply_op z s (DeleteBook (book_id l)) = s
        \<and> (\<not> returned l \<longrightarrow>
             l \<in> loan ` (set (getPendingReturns s tq) \<union> set (getOverdueBooks s tq))))"
proof -
  have j: "\<forall>r \<in> set (getPendingReturns s tq) \<union> set (getOverdueBooks s tq).
       book_id (loan r) \<in> set (map id_bk (books s))"
    using join_books_has_book by (auto simp: getPendingReturns_def getOverdueBooks_def)
  have d: "i \<notin> set (map book_id (borrows s)) \<and>
        s' = s\<lparr>books := filter (\<lambda>b. id_bk b \<noteq> i) (books s)\<rparr>"
    if "deleteBook s i = Inr (s', True)"
    using that by (auto simp: deleteBook_def split: if_splits)
  have k: "book_id l \<in> set (map id_bk (books s))
        \<and> deleteBook s (book_id l) = Inl ForeignKeyConstraint
        \<and> deleteRoute s (book_id l) =
            (s, \<lparr>status = 500, body = ErrorBody ''FOREIGN KEY constraint failed''\<rparr>)
        \<and> apply_op z s (DeleteBook (book_id l)) = s
        \<and> (\<not> returned l \<longrightarrow>
             l \<in> loan ` (set (getPendingReturns s tq) \<union> set (getOverdueBooks s tq)))"
    if r: "reachable z s" and l: "l \<in> set (borrows s)"
  proof -
    from reachable_loans_have_books [OF r] l
    have b: "book_id l \<in> set (map id_bk (books s))"
      unfolding loans_have_books_def by blast
    from l have "book_id l \<in> set (map book_id (borrows s))" by simp
    with b have t: "deleteBook s (book_id l) = Inl ForeignKeyConstraint"
      by (simp add: deleteBook_def)
    have q: "l \<in> loan ` (set (getPendingReturns s tq) \<union> set (getOverdueBooks s tq))"
      if a: "\<not> returned l"
    proof (cases "toISOString (return_date l) < sql_date tq")
      case True
      from join_books_has_loan [OF l _ b,
          of "\<lambda>b. \<not> returned b \<and> toISOString (return_date b) < sql_date tq"] a True
      obtain r where "r \<in> set (getOverdueBooks s tq)" "loan r = l"
        unfolding getOverdueBooks_def by auto
      then show ?thesis by force
    next
      case False
      from join_books_has_loan [OF l _ b,
          of "\<lambda>b. \<not> returned b \<and> \<not> toISOString (return_date b) < sql_date tq"] a False
      obtain r where "r \<in> set (getPendingReturns s tq)" "loan r = l"
        unfolding getPendingReturns_def by auto
      then show ?thesis by force
    qed
    from b t q show ?thesis by (simp add: deleteRoute_def after_def)
  qed
  from j d k show ?thesis by blast
qed

theorem borrowed_book_never_deleted_witness:
  "reachable utc_zone state_borrowed
   \<and> hd (borrows state_borrowed) \<in> set (borrows state_borrowed)
   \<and> \<not> returned (hd (borrows state_borrowed))
   \<and> book_id (hd (borrows state_borrowed)) = 1
   \<and> map id_bk (books state_borrowed) = [1]
   \<and> deleteBook state_borrowed 1 = Inl ForeignKeyConstraint
   \<and> hd (borrows state_borrowed)
       \<in> loan ` (set (getPendingReturns state_borrowed 1706428800000)
                  \<union> set (getOverdueBooks state_borrowed 1706428800000))
   \<and> deleteBook state_fresh 1 = Inr (state_fresh\<lparr>books := []\<rparr>, True)
   \<and> 1 \<notin> set (map book_id (borrows state_fresh))"
proof -
  have r: "reachable utc_zone state_borrowed"
    unfolding state_borrowed_def by (rule reachable_exec) (rule reachable.init)
  have l: "hd (borrows state_borrowed) \<in> set (borrows state_borrowed)"
    by (simp add: state_borrowed_eq)
  have a: "\<not> returned (hd (borrows state_borrowed))"
    by (simp add: state_borrowed_eq)
  have bi: "book_id (hd (borrows state_borrowed)) = 1"
    by (simp add: state_borrowed_eq)
  have bs: "map id_bk (books state_borrowed) = [1]"
    by (simp add: state_borrowed_eq)
  have d: "deleteBook state_fresh 1 = Inr (state_fresh\<lparr>books := []\<rparr>, True)"
    by (simp add: state_fresh_eq deleteBook_def)
  show ?thesis
    using borrowed_book_never_deleted [where z = utc_zone and s = state_borrowed
        and l = "hd (borrows state_borrowed)" and tq = 1706428800000]
      borrowed_book_never_deleted [where s = state_fresh and i = 1
        and s' = "state_fresh\<lparr>books := []\<rparr>"]
      r l a bi bs d
    by simp
qed

text \<open>
  C7 as stated fails: the loan of \<open>state_borrowed\<close> is due 2024-01-29T08:00:00.000Z
  and not returned; at 2024-01-29T10:00:00.000Z its return date is in the past, and
  getOverdueBooks does not return it: the text of the return date is not smaller than
  \<open>2024-01-29\<close>.
\<close>

theorem overdue_counterexample:
  "map returned (borrows state_borrowed) = [False]
   \<and> map return_date (borrows state_borrowed) = [1706515200000]
   \<and> (1706515200000 :: int) < 1706522400000
   \<and> toISOString 1706515200000 = ''2024-01-29T08:00:00.000Z''
   \<and> toISOString 1706522400000 = ''2024-01-29T10:00:00.000Z''
   \<and> sql_date 1706522400000 = ''2024-01-29''
   \<and> getOverdueBooks state_borrowed 1706522400000 = []"
  unfolding state_borrowed_eq by code_simp

text \<open>
  C7, amended. getOverdueBooks returns exactly the borrow rows with \<open>returned\<close> false
  whose book row exists and whose return date falls on a UTC calendar day before the
  day of now, each joined with the title and author of its book: the query compares
  the calendar dates \<open>YYYY-MM-DD\<close> as texts, and for instants from 1970 to the end of
  the year 9999 that is the comparison of the day numbers. A loan due on the current
  UTC day is never in the result. Once markAsReturned has succeeded on a loan, no row
  of the result is for it.
\<close>

theorem overdue_books_spec:
  "set (getOverdueBooks s now) =
     {\<lparr>loan = l, book_title = title bk, book_author = author bk\<rparr> | l bk.
        l \<in> set (borrows s) \<and> bk \<in> set (books s) \<and> book_id l = id_bk bk \<and> \<not> returned l \<and>
        sql_date (return_date l) < sql_date now}
   \<and> (in_calendar now \<and> (\<forall>l \<in> set (borrows s). in_calendar (return_date l)) \<longrightarrow>
        set (getOverdueBooks s now) =
          {\<lparr>loan = l, book_title = title bk, book_author = author bk\<rparr> | l bk.
             l \<in> set (borrows s) \<and> bk \<in> set (books s) \<and> book_id l = id_bk bk \<and>
             \<not> returned l \<and> return_date l div msPerDay < now div msPerDay})
   \<and> (\<forall>r \<in> set (getOverdueBooks s now). return_date (loan r) div msPerDay \<noteq> now div msPerDay)
   \<and> (markAsReturned s k = Inr (s', ok) \<longrightarrow>
        (\<forall>r \<in> set (getOverdueBooks s' now'). id_br (loan r) \<noteq> k))"
proof -
  have a: "set (getOverdueBooks s now) =
     {\<lparr>loan = l, book_title = title bk, book_author = author bk\<rparr> | l bk.
        l \<in> set (borrows s) \<and> bk \<in> set (books s) \<and> book_id l = id_bk bk \<and> \<not> returned l \<and>
        sql_date (return_date l) < sql_date now}"
    unfolding getOverdueBooks_def set_join_books overdue_text by blast
  have d: "set (getOverdueBooks s now) =
          {\<lparr>loan = l, book_title = title bk, book_author = author bk\<rparr> | l bk.
             l \<in> set (borrows s) \<and> bk \<in> set (books s) \<and> book_id l = id_bk bk \<and>
             \<not> returned l \<and> return_date l div msPerDay < now div msPerDay}"
    if h: "in_calendar now \<and> (\<forall>l \<in> set (borrows s). in_calendar (return_date l))"
  proof -
    have "(sql_date (return_date l) < sql_date now)
          = (return_date l div msPerDay < now div msPerDay)"
      if "l \<in> set (borrows s)" for l
      using h that by (intro sql_date_less) (auto simp: in_calendar_def)
    then show ?thesis unfolding a by blast
  qed
  have b: "\<forall>r \<in> set (getOverdueBooks s now). return_date (loan r) div msPerDay \<noteq> now div msPerDay"
    unfolding a using sql_date_same_day by auto
  have c: "\<forall>r \<in> set (getOverdueBooks s' now'). id_br (loan r) \<noteq> k"
    if "markAsReturned s k = Inr (s', ok)"
    using markAsReturned_returned [OF that] join_books_has_book [of _ s']
    unfolding getOverdueBooks_def by blast
  from a d b c show ?thesis by blast
qed

theorem overdue_books_spec_witness:
  "markAsReturned state_borrowed 1 = Inr (state_returned, True)
   \<and> in_calendar 1709283600000
   \<and> list_all (\<lambda>l. in_calendar (return_date l)) (borrows state_borrowed)
   \<and> getOverdueBooks state_borrowed 1709283600000 =
       [\<lparr>loan = \<lparr>id_br = 1, book_id = 1, user_email = ''x@y.com'', borrow_date = 1705305600000,
                  return_date = 1706515200000, returned = False\<rparr>,
          book_title = ''A'', book_author = ''B''\<rparr>]
   \<and> sql_date 1706515200000 = ''2024-01-29'' \<and> sql_date 1709283600000 = ''2024-03-01''
   \<and> 1706515200000 div msPerDay = 19751 \<and> 1709283600000 div msPerDay = 19783
   \<and> 1 \<notin> set (map (\<lambda>r. id_br (loan r)) (getOverdueBooks state_returned 1709283600000))
   \<and> getOverdueBooks state_returned 1709283600000 = []"
proof -
  have m: "markAsReturned state_borrowed 1 = Inr (state_returned, True)"
    unfolding state_borrowed_eq state_returned_eq by code_simp
  have i: "in_calendar 1709283600000
     \<and> list_all (\<lambda>l. in_calendar (return_date l)) (borrows state_borrowed)"
    unfolding state_borrowed_eq by code_simp
  have o: "getOverdueBooks state_borrowed 1709283600000 =
       [\<lparr>loan = \<lparr>id_br = 1, book_id = 1, user_email = ''x@y.com'', borrow_date = 1705305600000,
                  return_date = 1706515200000, returned = False\<rparr>,
          book_title = ''A'', book_author = ''B''\<rparr>]"
    unfolding state_borrowed_eq by code_simp
  have t: "sql_date 1706515200000 = ''2024-01-29'' \<and> sql_date 1709283600000 = ''2024-03-01''
     \<and> 1706515200000 div msPerDay = 19751 \<and> 1709283600000 div msPerDay = 19783"
    by code_simp
  have e: "getOverdueBooks state_returned 1709283600000 = []"
    unfolding state_returned_eq by code_simp
  show ?thesis
    using overdue_books_spec [of state_borrowed 1709283600000 1 state_returned True 1709283600000]
      m i o t e
    by auto
qed




section \<open>Updating a book\<close>

text \<open>
  C8 as stated fails: in \<open>state_two_books\<close>, an update of book 2 with the isbn of
  book 1 is answered with 500 and changes nothing (the isbn column is UNIQUE), and an
  update with an empty title and a new author changes the author only.
\<close>

theorem update_book_counterexample:
  "getBookById state_two_books 2 =
     Some \<lparr>id_bk = 2, title = ''C'', author = ''D'', isbn = ''978-0-13-468599-2'', available = True\<rparr>
   \<and> putBook state_two_books 2 None None (Some ''978-0-13-468599-1'') =
       (state_two_books,
        \<lparr>status = 500, body = ErrorBody ''UNIQUE constraint failed: books.isbn''\<rparr>)
   \<and> putBook state_two_books 2 (Some []) (Some ''E'') None =
       (state_two_books
          \<lparr>books := [\<lparr>id_bk = 1, title = ''A'', author = ''B'', isbn = ''978-0-13-468599-1'',
                       available = True\<rparr>,
                     \<lparr>id_bk = 2, title = ''C'', author = ''E'', isbn = ''978-0-13-468599-2'',
                       available = True\<rparr>]\<rparr>,
        \<lparr>status = 200,
         body = BookBody ''Book updated successfully''
                  \<lparr>id_bk = 2, title = ''C'', author = ''E'', isbn = ''978-0-13-468599-2'',
                    available = True\<rparr>\<rparr>)"
  unfolding state_two_books_eq by code_simp

text \<open>
  C8, amended. A field of the partial update counts when it is present and not the
  empty string. With no such field PUT /books/:id answers 400 before updateBook is
  called. With at least one: if no book has the id the answer is 404 and nothing
  changes; if the book exists and the new isbn, if any, is not the isbn of another
  book, exactly the fields that count are replaced in that book, and every other
  field of it (\<open>id\<close>, \<open>available\<close>, the fields that do not count), every other book
  and every loan stay as they are; if another book has the new isbn the answer is 500
  and nothing changes.
\<close>

theorem update_book_spec:
  "(\<not> truthy t \<and> \<not> truthy a \<and> \<not> truthy n \<longrightarrow>
      putBook s i t a n =
        (s, \<lparr>status = 400, body = ErrorBody ''At least one field to update is required''\<rparr>))
   \<and> ((truthy t \<or> truthy a \<or> truthy n) \<and> getBookById s i = None \<longrightarrow>
        putBook s i t a n = (s, \<lparr>status = 404, body = ErrorBody ''Book not found''\<rparr>))
   \<and> ((truthy t \<or> truthy a \<or> truthy n) \<and> getBookById s i = Some bk \<and>
       \<not> (truthy n \<and> (\<exists>b \<in> set (books s). id_bk b \<noteq> i \<and> Some (isbn b) = n)) \<longrightarrow>
        putBook s i t a n =
          (s\<lparr>books := map (\<lambda>b. if id_bk b = i
                                then b\<lparr>title := set_field t (title b),
                                       author := set_field a (author b),
                                       isbn := set_field n (isbn b)\<rparr>
                                else b) (books s)\<rparr>,
           \<lparr>status = 200,
            body = BookBody ''Book updated successfully''
                     (bk\<lparr>title := set_field t (title bk), author := set_field a (author bk),
                         isbn := set_field n (isbn bk)\<rparr>)\<rparr>))
   \<and> ((truthy t \<or> truthy a \<or> truthy n) \<and> getBookById s i = Some bk \<and>
       truthy n \<and> (\<exists>b \<in> set (books s). id_bk b \<noteq> i \<and> Some (isbn b) = n) \<longrightarrow>
        putBook s i t a n = (s, \<lparr>status = 500, body = ErrorBody (message UniqueConstraint)\<rparr>))
   \<and> set_field None old = old \<and> set_field (Some []) old = old
   \<and> (v \<noteq> [] \<longrightarrow> set_field (Some v) old = v)
   \<and> borrows (fst (putBook s i t a n)) = borrows s
   \<and> map id_bk (books (fst (putBook s i t a n))) = map id_bk (books s)
   \<and> map available (books (fst (putBook s i t a n))) = map available (books s)"
proof -
  let ?fu = "\<lambda>b. if id_bk b = i
                 then b\<lparr>title := set_field t (title b), author := set_field a (author b),
                        isbn := set_field n (isbn b)\<rparr>
                 else b"
  have fid: "\<And>b. id_bk (?fu b) = id_bk b" by simp
  have fav: "\<And>b. available (?fu b) = available b" by simp
  have g: "getBookById (s\<lparr>books := map ?fu (books s)\<rparr>) i = Some (?fu bk)"
    if "getBookById s i = Some bk"
    using that find_map_key [of ?fu i "books s", OF fid] by (simp add: getBookById_def)
  have bki: "id_bk bk = i" if "getBookById s i = Some bk"
    using that find_Some_key [of id_bk i "books s" bk] by (simp add: getBookById_def)
  have c1: "putBook s i t a n =
        (s, \<lparr>status = 400, body = ErrorBody ''At least one field to update is required''\<rparr>)"
    if "\<not> truthy t \<and> \<not> truthy a \<and> \<not> truthy n"
    using that by (simp add: putBook_def)
  have c2: "putBook s i t a n = (s, \<lparr>status = 404, body = ErrorBody ''Book not found''\<rparr>)"
    if "(truthy t \<or> truthy a \<or> truthy n) \<and> getBookById s i = None"
    using that by (auto simp: putBook_def updateBook_def)
  have c3: "putBook s i t a n =
          (s\<lparr>books := map ?fu (books s)\<rparr>,
           \<lparr>status = 200,
            body = BookBody ''Book updated successfully''
                     (bk\<lparr>title := set_field t (title bk), author := set_field a (author bk),
                         isbn := set_field n (isbn bk)\<rparr>)\<rparr>)"
    if h: "(truthy t \<or> truthy a \<or> truthy n) \<and> getBookById s i = Some bk \<and>
       \<not> (truthy n \<and> (\<exists>b \<in> set (books s). id_bk b \<noteq> i \<and> Some (isbn b) = n))"
  proof -
    from h have b: "getBookById s i = Some bk" by simp
    have u: "updateBook s i t a n = Inr (s\<lparr>books := map ?fu (books s)\<rparr>, Some (?fu bk))"
      using h g [OF b] by (auto simp: updateBook_def Let_def)
    show ?thesis using h bki [OF b] by (auto simp: putBook_def u)
  qed
  have c4: "putBook s i t a n = (s, \<lparr>status = 500, body = ErrorBody (message UniqueConstraint)\<rparr>)"
    if "(truthy t \<or> truthy a \<or> truthy n) \<and> getBookById s i = Some bk \<and>
       truthy n \<and> (\<exists>b \<in> set (books s). id_bk b \<noteq> i \<and> Some (isbn b) = n)"
    using that by (auto simp: putBook_def updateBook_def)
  have sf: "set_field None old = old \<and> set_field (Some []) old = old
     \<and> (v \<noteq> [] \<longrightarrow> set_field (Some v) old = v)"
    by simp
  have fs: "fst (putBook s i t a n) = s \<or> fst (putBook s i t a n) = s\<lparr>books := map ?fu (books s)\<rparr>"
    by (auto simp: putBook_def updateBook_def Let_def split: option.splits)
  have fr: "borrows (fst (putBook s i t a n)) = borrows s
   \<and> map id_bk (books (fst (putBook s i t a n))) = map id_bk (books s)
   \<and> map available (books (fst (putBook s i t a n))) = map available (books s)"
    using fs by (auto simp: comp_def cong: if_cong)
  from c1 c2 c3 c4 sf fr show ?thesis by blast
qed

theorem update_book_spec_witness:
  "(truthy (Some ''T'') \<or> truthy None \<or> truthy (Some ''978-0-13-468599-9''))
   \<and> getBookById state_borrowed 1 =
       Some \<lparr>id_bk = 1, title = ''A'', author = ''B'', isbn = ''978-0-13-468599-1'',
             available = False\<rparr>
   \<and> \<not> (truthy (Some ''978-0-13-468599-9'') \<and>
          (\<exists>b \<in> set (books state_borrowed).
              id_bk b \<noteq> 1 \<and> Some (isbn b) = Some ''978-0-13-468599-9''))
   \<and> putBook state_borrowed 1 (Some ''T'') None (Some ''978-0-13-468599-9'') =
       (state_borrowed
          \<lparr>books := [\<lparr>id_bk = 1, title = ''T'', author = ''B'', isbn = ''978-0-13-468599-9'',
                       available = False\<rparr>]\<rparr>,
        \<lparr>status = 200,
         body = BookBody ''Book updated successfully''
                  \<lparr>id_bk = 1, title = ''T'', author = ''B'', isbn = ''978-0-13-468599-9'',
                    available = False\<rparr>\<rparr>)
   \<and> getBookById state_borrowed 7 = None
   \<and> putBook state_borrowed 7 (Some ''T'') None (Some ''978-0-13-468599-9'') =
       (state_borrowed, \<lparr>status = 404, body = ErrorBody ''Book not found''\<rparr>)
   \<and> putBook state_borrowed 1 None (Some []) None =
       (state_borrowed,
        \<lparr>status = 400, body = ErrorBody ''At least one field to update is required''\<rparr>)"
proof -
  have g: "getBookById state_borrowed 1 =
       Some \<lparr>id_bk = 1, title = ''A'', author = ''B'', isbn = ''978-0-13-468599-1'',
             available = False\<rparr>"
    by (simp add: state_borrowed_eq getBookById_def)
  have n: "getBookById state_borrowed 7 = None"
    by (simp add: state_borrowed_eq getBookById_def)
  have c: "\<not> (truthy (Some ''978-0-13-468599-9'') \<and>
          (\<exists>b \<in> set (books state_borrowed).
              id_bk b \<noteq> 1 \<and> Some (isbn b) = Some ''978-0-13-468599-9''))"
    by (simp add: state_borrowed_eq)
  show ?thesis
    using update_book_spec [where s = state_borrowed and i = 1 and t = "Some ''T''" and a = None
        and n = "Some ''978-0-13-468599-9''"
        and bk = "\<lparr>id_bk = 1, title = ''A'', author = ''B'', isbn = ''978-0-13-468599-1'',
                    available = False\<rparr>"]
      update_book_spec [where s = state_borrowed and i = 7 and t = "Some ''T''" and a = None
        and n = "Some ''978-0-13-468599-9''"]
      update_book_spec [where s = state_borrowed and i = 1 and t = None and a = "Some []"
        and n = None]
      g n c
    by (simp add: state_borrowed_eq)
qed

section \<open>The borrow request\<close>

text \<open>
  C2 as stated fails. For the available book of \<open>state_fresh\<close> and a valid request,
  POST /borrow answers 500 when the transport rejects the confirmation mail, so the
  request does not succeed. When the clock advances between the readings, the stored
  return date (2024-01-29T08:00:00.001Z) is not the borrow date plus 14 days
  (2024-01-29T08:00:00.000Z), and the returnDate of the answer
  (2024-01-29T08:00:00.002Z) is a third value; the answer carries the result of the
  INSERT, \<open>{changes, lastInsertRowid}\<close>, in place of the loan row. And a request
  whose \<open>userEmail\<close> is an array of two strings passes the checks of the route, is
  answered 500, and leaves the book unavailable with no loan created.
\<close>

theorem borrow_available_counterexample:
  "getBookById state_fresh 1 =
     Some \<lparr>id_bk = 1, title = ''A'', author = ''B'', isbn = ''978-0-13-468599-1'', available = True\<rparr>
   \<and> email_ok (email_string (EmailText ''x@y.com''))
   \<and> status (snd (snd (postBorrow utc_zone (\<lambda>m. False) state_fresh (Some 1)
                          (Some (EmailText ''x@y.com''))
                          1705305600000 1705305600000 1705305600000))) = 500
   \<and> map (\<lambda>l. (borrow_date l, return_date l))
        (borrows (fst (postBorrow utc_zone (\<lambda>m. True) state_fresh (Some 1)
                          (Some (EmailText ''x@y.com''))
                          1705305600000 1705305600001 1705305600002)))
      = [(1705305600000, 1706515200001)]
   \<and> 1705305600000 + 14 * msPerDay = 1706515200000
   \<and> snd (snd (postBorrow utc_zone (\<lambda>m. True) state_fresh (Some 1)
                   (Some (EmailText ''x@y.com''))
                   1705305600000 1705305600001 1705305600002))
      = \<lparr>status = 200,
         body = BorrowBody ''Book borrowed successfully'' \<lparr>changes = 1, lastInsertRowid = 1\<rparr>
                  ''2024-01-29T08:00:00.002Z''\<rparr>
   \<and> email_ok (email_string (EmailArray [''x@y.com'', ''z'']))
   \<and> status (snd (snd (postBorrow utc_zone (\<lambda>m. True) state_fresh (Some 1)
                          (Some (EmailArray [''x@y.com'', ''z'']))
                          1705305600000 1705305600000 1705305600000))) = 500
   \<and> map available (books (fst (postBorrow utc_zone (\<lambda>m. True) state_fresh (Some 1)
                          (Some (EmailArray [''x@y.com'', ''z'']))
                          1705305600000 1705305600000 1705305600000))) = [False]
   \<and> borrows (fst (postBorrow utc_zone (\<lambda>m. True) state_fresh (Some 1)
                          (Some (EmailArray [''x@y.com'', ''z'']))
                          1705305600000 1705305600000 1705305600000)) = []"
  unfolding state_fresh_eq by code_simp

text \<open>
  C2, amended. For every book whose \<open>available\<close> is true and a \<open>userEmail\<close> that
  fills the placeholder of the INSERT (a string, or an array of one string),
  addBorrow succeeds: it sets \<open>available\<close> of the book to false, appends exactly one
  borrow row with \<open>returned\<close> false, \<open>borrow_date\<close> the first clock reading and
  \<open>return_date\<close> the second clock reading moved 14 days on in the local time of the
  server, changes nothing else, and returns \<open>changes = 1\<close> and the id of the new row.
  The return date is the second reading plus 14 times 24 hours and the difference of
  the zone's offsets at the two ends, so plus 14 times 24 hours where the offset is
  the same. POST /borrow, for a valid request whose confirmation mail the transport
  accepts, answers 200 with that result and with a returnDate that is the clock
  reading of the route moved 14 days on in the same way.
\<close>

theorem borrow_available_spec:
  assumes b: "getBookById s bi = Some bk" and av: "available bk"
    and be: "bind_email ue = Inr v"
  shows "addBorrow z s bi ue t1 t2 =
      (s\<lparr>books := map (\<lambda>b. if id_bk b = bi then b\<lparr>available := False\<rparr> else b) (books s),
         borrows := borrows s @
           [\<lparr>id_br = next_rowid (borrow_seq s) (map id_br (borrows s)), book_id = bi,
             user_email = v, borrow_date = t1, return_date = plus14days z t2,
             returned = False\<rparr>],
         borrow_seq := next_rowid (borrow_seq s) (map id_br (borrows s))\<rparr>,
       Inr \<lparr>changes = 1, lastInsertRowid = next_rowid (borrow_seq s) (map id_br (borrows s))\<rparr>)
    \<and> plus14days z t2 =
        t2 + 14 * msPerDay + (z t2 True - z (t2 + z t2 True + 14 * msPerDay) False)
    \<and> (z (t2 + z t2 True + 14 * msPerDay) False = z t2 True \<longrightarrow>
        plus14days z t2 = t2 + 14 * msPerDay)
    \<and> (bi \<noteq> 0 \<and> email_ok (email_string ue) \<and>
        tr (sendBorrowEmail (email_string ue) (title bk) (toISOString (plus14days z t3))) \<longrightarrow>
        postBorrow z tr s (Some bi) (Some ue) t1 t2 t3 =
          (fst (addBorrow z s bi ue t1 t2),
           [sendBorrowEmail (email_string ue) (title bk) (toISOString (plus14days z t3))],
           \<lparr>status = 200,
            body = BorrowBody ''Book borrowed successfully''
                     \<lparr>changes = 1,
                      lastInsertRowid = next_rowid (borrow_seq s) (map id_br (borrows s))\<rparr>
                     (toISOString (plus14days z t3))\<rparr>))
    \<and> getBookById (fst (addBorrow z s bi ue t1 t2)) bi = Some (bk\<lparr>available := False\<rparr>)"
proof -
  note a = addBorrow_available [OF b av be, of z t1 t2]
  have p: "plus14days z t2 =
        t2 + 14 * msPerDay + (z t2 True - z (t2 + z t2 True + 14 * msPerDay) False)"
    by (simp add: plus14days_def UTC_def LocalTime_def)
  have r: "postBorrow z tr s (Some bi) (Some ue) t1 t2 t3 =
          (fst (addBorrow z s bi ue t1 t2),
           [sendBorrowEmail (email_string ue) (title bk) (toISOString (plus14days z t3))],
           \<lparr>status = 200,
            body = BorrowBody ''Book borrowed successfully''
                     \<lparr>changes = 1,
                      lastInsertRowid = next_rowid (borrow_seq s) (map id_br (borrows s))\<rparr>
                     (toISOString (plus14days z t3))\<rparr>)"
    if "bi \<noteq> 0 \<and> email_ok (email_string ue) \<and>
        tr (sendBorrowEmail (email_string ue) (title bk) (toISOString (plus14days z t3)))"
    using that b email_ok_truthy [of ue]
    by (simp add: postBorrow_def a Let_def)
  let ?fb = "\<lambda>b. if id_bk b = bi then b\<lparr>available := False\<rparr> else b"
  have fid: "\<And>b. id_bk (?fb b) = id_bk b" by simp
  from b have bki: "id_bk bk = bi"
    using find_Some_key [of id_bk bi "books s" bk] by (simp add: getBookById_def)
  have g: "getBookById (fst (addBorrow z s bi ue t1 t2)) bi = Some (bk\<lparr>available := False\<rparr>)"
    using b bki find_map_key [of ?fb bi "books s", OF fid]
    by (simp add: a getBookById_def)
  from a p r g plus14days_same_offset [of z t2] show ?thesis by blast
qed

theorem borrow_available_spec_witness:
  "getBookById state_fresh 1 =
     Some \<lparr>id_bk = 1, title = ''A'', author = ''B'', isbn = ''978-0-13-468599-1'', available = True\<rparr>
   \<and> available \<lparr>id_bk = 1, title = ''A'', author = ''B'', isbn = ''978-0-13-468599-1'',
                 available = True\<rparr>
   \<and> bind_email (EmailText ''x@y.com'') = Inr ''x@y.com''
   \<and> utc_zone (1705305600000 + utc_zone 1705305600000 True + 14 * msPerDay) False =
       utc_zone 1705305600000 True
   \<and> plus14days utc_zone 1705305600000 = 1705305600000 + 14 * msPerDay
   \<and> (1 :: int) \<noteq> 0 \<and> email_ok (email_string (EmailText ''x@y.com''))
   \<and> postBorrow utc_zone (\<lambda>m. True) state_fresh (Some 1) (Some (EmailText ''x@y.com''))
        1705305600000 1705305600000 1705305600000 =
       (state_borrowed,
        [sendBorrowEmail ''x@y.com'' ''A'' ''2024-01-29T08:00:00.000Z''],
        \<lparr>status = 200,
         body = BorrowBody ''Book borrowed successfully'' \<lparr>changes = 1, lastInsertRowid = 1\<rparr>
                  ''2024-01-29T08:00:00.000Z''\<rparr>)"
proof -
  have b: "getBookById state_fresh 1 =
     Some \<lparr>id_bk = 1, title = ''A'', author = ''B'', isbn = ''978-0-13-468599-1'', available = True\<rparr>"
    by (simp add: state_fresh_eq getBookById_def)
  have av: "available \<lparr>id_bk = 1, title = ''A'', author = ''B'', isbn = ''978-0-13-468599-1'',
                 available = True\<rparr>"
    by simp
  have be: "bind_email (EmailText ''x@y.com'') = Inr ''x@y.com''"
    by simp
  have e: "email_ok (email_string (EmailText ''x@y.com''))"
    by (simp add: email_ok_examples)
  have o: "utc_zone (1705305600000 + utc_zone 1705305600000 True + 14 * msPerDay) False =
       utc_zone 1705305600000 True"
    by (simp add: utc_zone_def)
  have t: "toISOString (plus14days utc_zone 1705305600000) = ''2024-01-29T08:00:00.000Z''"
    by code_simp
  have n: "next_rowid (borrow_seq state_fresh) (map id_br (borrows state_fresh)) = 1"
    by (simp add: state_fresh_eq next_rowid_def)
  have s: "fst (addBorrow utc_zone state_fresh 1 (EmailText ''x@y.com'') 1705305600000
                  1705305600000) = state_borrowed"
    unfolding state_fresh_eq state_borrowed_eq by code_simp
  show ?thesis
    using borrow_available_spec [OF b av be, where z = utc_zone and tr = "\<lambda>m. True"
        and ?t1.0 = 1705305600000 and ?t2.0 = 1705305600000 and ?t3.0 = 1705305600000] b be e o
    by (simp add: t n s)
qed

text \<open>
  C10. When addBorrow has succeeded and the transport rejects the confirmation mail,
  POST /borrow answers 500, and the database it leaves is the one addBorrow wrote:
  the book has \<open>available\<close> false and the new borrow row is there.
\<close>

theorem mail_failure_after_commit:
  assumes b: "getBookById s bi = Some bk" and av: "available bk"
    and be: "bind_email ue = Inr v"
    and i: "bi \<noteq> 0" and e: "email_ok (email_string ue)"
    and f: "\<not> tr (sendBorrowEmail (email_string ue) (title bk) (toISOString (plus14days z t3)))"
  shows "status (snd (snd (postBorrow z tr s (Some bi) (Some ue) t1 t2 t3))) = 500
    \<and> fst (postBorrow z tr s (Some bi) (Some ue) t1 t2 t3) = fst (addBorrow z s bi ue t1 t2)
    \<and> snd (addBorrow z s bi ue t1 t2) =
        Inr \<lparr>changes = 1, lastInsertRowid = next_rowid (borrow_seq s) (map id_br (borrows s))\<rparr>
    \<and> getBookById (fst (postBorrow z tr s (Some bi) (Some ue) t1 t2 t3)) bi
        = Some (bk\<lparr>available := False\<rparr>)
    \<and> borrows (fst (postBorrow z tr s (Some bi) (Some ue) t1 t2 t3)) =
        borrows s @
          [\<lparr>id_br = next_rowid (borrow_seq s) (map id_br (borrows s)), book_id = bi,
            user_email = v, borrow_date = t1, return_date = plus14days z t2,
            returned = False\<rparr>]"
proof -
  note a = addBorrow_available [OF b av be, of z t1 t2]
  have p: "postBorrow z tr s (Some bi) (Some ue) t1 t2 t3 =
     (fst (addBorrow z s bi ue t1 t2),
      [sendBorrowEmail (email_string ue) (title bk) (toISOString (plus14days z t3))],
      borrow_catch SmtpError)"
    using b i e f email_ok_truthy [of ue]
    by (simp add: postBorrow_def a Let_def)
  let ?fb = "\<lambda>b. if id_bk b = bi then b\<lparr>available := False\<rparr> else b"
  have fid: "\<And>b. id_bk (?fb b) = id_bk b" by simp
  from b have bki: "id_bk bk = bi"
    using find_Some_key [of id_bk bi "books s" bk] by (simp add: getBookById_def)
  have g: "getBookById (fst (addBorrow z s bi ue t1 t2)) bi = Some (bk\<lparr>available := False\<rparr>)"
    using b bki find_map_key [of ?fb bi "books s", OF fid]
    by (simp add: a getBookById_def)
  have l: "borrows (fst (addBorrow z s bi ue t1 t2)) =
        borrows s @
          [\<lparr>id_br = next_rowid (borrow_seq s) (map id_br (borrows s)), book_id = bi,
            user_email = v, borrow_date = t1, return_date = plus14days z t2,
            returned = False\<rparr>]"
    by (simp add: a)
  have k: "snd (addBorrow z s bi ue t1 t2) =
        Inr \<lparr>changes = 1, lastInsertRowid = next_rowid (borrow_seq s) (map id_br (borrows s))\<rparr>"
    by (simp add: a)
  show ?thesis using g l k by (simp add: p borrow_catch_def)
qed

theorem mail_failure_after_commit_witness:
  "getBookById state_fresh 1 =
     Some \<lparr>id_bk = 1, title = ''A'', author = ''B'', isbn = ''978-0-13-468599-1'', available = True\<rparr>
   \<and> available \<lparr>id_bk = 1, title = ''A'', author = ''B'', isbn = ''978-0-13-468599-1'',
                 available = True\<rparr>
   \<and> bind_email (EmailText ''x@y.com'') = Inr ''x@y.com''
   \<and> (1 :: int) \<noteq> 0 \<and> email_ok (email_string (EmailText ''x@y.com''))
   \<and> \<not> (\<lambda>m. False) (sendBorrowEmail ''x@y.com'' ''A''
                        (toISOString (plus14days utc_zone 1705305600000)))
   \<and> status (snd (snd (postBorrow utc_zone (\<lambda>m. False) state_fresh (Some 1)
                          (Some (EmailText ''x@y.com''))
                          1705305600000 1705305600000 1705305600000))) = 500
   \<and> fst (postBorrow utc_zone (\<lambda>m. False) state_fresh (Some 1) (Some (EmailText ''x@y.com''))
            1705305600000 1705305600000 1705305600000) = state_borrowed"
proof -
  have b: "getBookById state_fresh 1 =
     Some \<lparr>id_bk = 1, title = ''A'', author = ''B'', isbn = ''978-0-13-468599-1'', available = True\<rparr>"
    by (simp add: state_fresh_eq getBookById_def)
  have av: "available \<lparr>id_bk = 1, title = ''A'', author = ''B'', isbn = ''978-0-13-468599-1'',
                 available = True\<rparr>"
    by simp
  have be: "bind_email (EmailText ''x@y.com'') = Inr ''x@y.com''"
    by simp
  have i: "(1 :: int) \<noteq> 0" by simp
  have e: "email_ok (email_string (EmailText ''x@y.com''))"
    by (simp add: email_ok_examples)
  have f: "\<not> (\<lambda>m. False)
      (sendBorrowEmail (email_string (EmailText ''x@y.com''))
         (title \<lparr>id_bk = 1, title = ''A'', author = ''B'', isbn = ''978-0-13-468599-1'',
                 available = True\<rparr>)
         (toISOString (plus14days utc_zone 1705305600000)))"
    by simp
  have s: "fst (addBorrow utc_zone state_fresh 1 (EmailText ''x@y.com'') 1705305600000
                  1705305600000) = state_borrowed"
    unfolding state_fresh_eq state_borrowed_eq by code_simp
  show ?thesis
    using mail_failure_after_commit [OF b av be i e f, where ?t1.0 = 1705305600000
        and ?t2.0 = 1705305600000] b be e
    by (simp add: s)
qed

end
